theory Spec2Isabelle
  imports Main "HOL-Library.Sublist" "HOL-Library.Char_ord" "HOL-Library.List_Lexorder"
begin

section \<open>Values and strings\<close>

text \<open>
  A Python \<open>str\<close> is modelled as a \<^typ>\<open>string\<close>: one \<^typ>\<open>char\<close> per code point,
  for the code points up to 255. A value bound to an SQL parameter, stored in a column
  or held in a result tuple is \<open>None\<close>/\<open>NULL\<close>, an integer (Python's \<open>bool\<close> is bound
  as 0 or 1) or a text.
\<close>

datatype val = VNull | VInt int | VText string

text \<open>The exceptions that the modelled code can meet, each with the text of \<open>str(e)\<close>.\<close>

datatype py_error =
    IndexError
  | KeyError string
  | OverflowError
  | OperationalError string
  | OSError string
  | RuntimeError string

fun py_str :: "py_error \<Rightarrow> string" where
  "py_str IndexError = ''tuple index out of range''"
| "py_str (KeyError key) = key"
| "py_str OverflowError = ''Python int too large to convert to SQLite INTEGER''"
| "py_str (OperationalError msg) = msg"
| "py_str (OSError msg) = msg"
| "py_str (RuntimeError msg) = msg"

text \<open>Sequencing of steps that may raise: the first exception ends the block.\<close>

definition and_then :: "py_error + 'a \<Rightarrow> ('a \<Rightarrow> py_error + 'b) \<Rightarrow> py_error + 'b" where
  "and_then r k = (case r of Inl e \<Rightarrow> Inl e | Inr x \<Rightarrow> k x)"

subsection \<open>Python string operations\<close>

text \<open>\<open>sep.join(xs)\<close>\<close>

fun py_join :: "string \<Rightarrow> string list \<Rightarrow> string" where
  "py_join sep [] = []"
| "py_join sep [x] = x"
| "py_join sep (x # y # ys) = x @ sep @ py_join sep (y # ys)"

text \<open>\<open>s.split(sep)\<close> for a separator of one character: never the empty list.\<close>

fun py_split :: "char \<Rightarrow> string \<Rightarrow> string list" where
  "py_split sep [] = [[]]"
| "py_split sep (c # cs) =
     (if c = sep then [] # py_split sep cs
      else case py_split sep cs of
             [] \<Rightarrow> [[c]]
           | p # ps \<Rightarrow> (c # p) # ps)"

text \<open>\<open>s.rsplit(sep, 1)[0]\<close>: the text before the last separator, or all of \<open>s\<close>.\<close>

definition py_rsplit1_head :: "char \<Rightarrow> string \<Rightarrow> string" where
  "py_rsplit1_head sep s =
     (if sep \<in> set s then rev (tl (dropWhile (\<lambda>c. c \<noteq> sep) (rev s))) else s)"

text \<open>
  \<open>str.isspace\<close> on the code points up to 255: tab to carriage return, the four
  separators 28 to 31, the space, NEL (133) and the no-break space (160).
\<close>

definition py_isspace :: "char \<Rightarrow> bool" where
  "py_isspace c = ((of_char c :: nat) \<in> set [9, 10, 11, 12, 13, 28, 29, 30, 31, 32, 133, 160])"

definition py_strip :: "string \<Rightarrow> string" where
  "py_strip s = rev (dropWhile py_isspace (rev (dropWhile py_isspace s)))"

text \<open>
  \<open>str.lower\<close> on the code points up to 255: the ASCII capitals and the Latin-1
  capitals 192 to 222 (but not the multiplication sign 215) move up by 32.
\<close>

definition py_lower_char :: "char \<Rightarrow> char" where
  "py_lower_char c =
     (let n = (of_char c :: nat)
      in if (65 \<le> n \<and> n \<le> 90) \<or> (192 \<le> n \<and> n \<le> 222 \<and> n \<noteq> 215)
         then char_of (n + 32) else c)"

definition py_lower :: "string \<Rightarrow> string" where
  "py_lower s = map py_lower_char s"

text \<open>\<open>str(n)\<close> for an integer.\<close>

fun digits :: "nat \<Rightarrow> string" where
  "digits n = (if n < 10 then [char_of (48 + n)] else digits (n div 10) @ [char_of (48 + n mod 10)])"

declare digits.simps [simp del]

definition py_str_int :: "int \<Rightarrow> string" where
  "py_str_int i = (if i < 0 then CHR ''-'' # digits (nat (- i)) else digits (nat i))"

text \<open>Truthiness of an optional integer argument: \<open>None\<close> and 0 are false.\<close>

definition truthy_id :: "int option \<Rightarrow> bool" where
  "truthy_id user_id = (case user_id of None \<Rightarrow> False | Some n \<Rightarrow> n \<noteq> 0)"


section \<open>Field accessor\<close>

text \<open>
  \<open>entry[index]\<close> on a tuple: reading at or beyond the length raises \<open>IndexError\<close>.
  Likewise \<open>field_mapping[field_name]\<close> raises \<open>KeyError\<close> for a name that is not a key.
\<close>

definition py_index :: "'a list \<Rightarrow> nat \<Rightarrow> py_error + 'a" where
  "py_index entry index = (if index < length entry then Inr (entry ! index) else Inl IndexError)"

text \<open>The body shared by the three copies of \<open>get_entry_field\<close>; they differ in the table.\<close>

definition get_field :: "(string \<times> nat) list \<Rightarrow> val list \<Rightarrow> string \<Rightarrow> py_error + val" where
  "get_field field_mapping entry field_name =
     (if field_name \<notin> fst ` set field_mapping then Inr VNull
      else case map_of field_mapping field_name of
             None \<Rightarrow> Inl (KeyError field_name)
           | Some index \<Rightarrow>
               if length entry > index then py_index entry index else Inr VNull)"

text \<open>\<open>streamlit_app.py\<close>\<close>

definition field_mapping_streamlit_app :: "(string \<times> nat) list" where
  "field_mapping_streamlit_app =
     [(''id'', 0), (''username'', 1), (''filename'', 2), (''description'', 3),
      (''image_caption'', 4), (''link'', 5), (''link_summary'', 6), (''categories'', 7),
      (''uploaded_at'', 8), (''user_id'', 9), (''file_path'', 10), (''file_size'', 11),
      (''title'', 12), (''tags'', 13), (''image_width'', 14), (''image_height'', 15),
      (''notes'', 16), (''is_favorite'', 17), (''is_archived'', 18)]"

definition get_entry_field :: "val list \<Rightarrow> string \<Rightarrow> py_error + val" where
  "get_entry_field = get_field field_mapping_streamlit_app"

text \<open>\<open>app.py\<close>\<close>

definition field_mapping_app :: "(string \<times> nat) list" where
  "field_mapping_app =
     [(''id'', 0), (''user_id'', 1), (''username'', 2), (''title'', 3), (''filename'', 4),
      (''description'', 5), (''image_caption'', 6), (''link'', 7), (''link_summary'', 8),
      (''categories'', 9), (''tags'', 10), (''file_path'', 11), (''file_size'', 12),
      (''image_width'', 13), (''image_height'', 14), (''notes'', 15), (''is_favorite'', 16),
      (''is_archived'', 17), (''created_at'', 18), (''updated_at'', 19), (''uploaded_at'', 20)]"

definition get_entry_field_app :: "val list \<Rightarrow> string \<Rightarrow> py_error + val" where
  "get_entry_field_app = get_field field_mapping_app"

text \<open>\<open>streamlit_app_enhanced.py\<close>\<close>

definition field_mapping_enhanced :: "(string \<times> nat) list" where
  "field_mapping_enhanced =
     [(''id'', 0), (''username'', 1), (''title'', 2), (''filename'', 3), (''description'', 4),
      (''image_caption'', 5), (''link'', 6), (''link_summary'', 7), (''categories'', 8),
      (''tags'', 9), (''file_path'', 10), (''file_size'', 11), (''image_width'', 12),
      (''image_height'', 13), (''notes'', 14), (''is_favorite'', 15), (''is_archived'', 16),
      (''created_at'', 17), (''updated_at'', 18), (''uploaded_at'', 19)]"

definition get_entry_field_enhanced :: "val list \<Rightarrow> string \<Rightarrow> py_error + val" where
  "get_entry_field_enhanced = get_field field_mapping_enhanced"

section \<open>The store\<close>

text \<open>
  The tables of \<open>init_db\<close>. A column declared \<open>TEXT\<close> holds \<open>NULL\<close> or a text, an
  \<open>INTEGER\<close> column \<open>NULL\<close> or an integer. The \<open>BOOLEAN\<close> and \<open>TIMESTAMP\<close> columns
  have numeric affinity and hold a value of any class: the flags are written as
  integers 0 and 1 by the code, the timestamps as texts.
\<close>

record user =
  u_id :: int
  u_username :: string
  u_email :: string
  u_full_name :: "string option"
  u_created_at :: val
  u_last_login :: val
  u_is_active :: val

record entry =
  e_id :: int
  e_user_id :: int
  e_username :: string
  e_title :: "string option"
  e_filename :: "string option"
  e_description :: "string option"
  e_image_caption :: "string option"
  e_link :: "string option"
  e_link_summary :: "string option"
  e_categories :: "string option"
  e_tags :: "string option"
  e_file_path :: "string option"
  e_file_size :: "int option"
  e_image_width :: "int option"
  e_image_height :: "int option"
  e_notes :: "string option"
  e_is_favorite :: val
  e_is_archived :: val
  e_created_at :: val
  e_updated_at :: val
  e_uploaded_at :: val

text \<open>
  The database file: both tables in insertion order, and the largest id ever given to
  an entry (the \<open>AUTOINCREMENT\<close> counter kept by the engine).
\<close>

record database =
  users :: "user list"
  entries :: "entry list"
  entries_seq :: int

text \<open>The upload directory: the content stored under each path.\<close>

type_synonym filesystem = "string \<rightharpoonup> string"

text \<open>An uploaded file: \<open>image_file.name\<close> and \<open>image_file.getbuffer()\<close>.\<close>

record uploaded_file =
  upload_name :: string
  upload_buffer :: string

text \<open>
  What the code reads from its surroundings during one call. A database call may
  raise (a locked or damaged file, a full disk): \<open>db_fault\<close> gives the message for each
  kind of call that does. \<open>os_write_error\<close> and \<open>os_remove_error\<close> do the same for writing
  and removing a path. The clock is read in three forms: \<open>CURRENT_TIMESTAMP\<close> of the
  engine, \<open>datetime.now().isoformat()\<close> and
  \<open>datetime.now().strftime('%Y%m%d_%H%M%S')\<close>. \<open>image_size\<close> is the decoder of the
  imaging library, \<open>None\<close> where it rejects the bytes.
\<close>

datatype db_step = Connect | Select | Insert | Update | Delete | Commit

record env =
  db_fault :: "db_step \<Rightarrow> string option"
  os_write_error :: "string \<Rightarrow> string option"
  os_remove_error :: "string \<Rightarrow> string option"
  current_timestamp :: string
  now_isoformat :: string
  now_strftime :: string
  image_size :: "string \<Rightarrow> (int \<times> int) option"

definition db_call :: "env \<Rightarrow> db_step \<Rightarrow> py_error + unit" where
  "db_call ev s = (case db_fault ev s of Some msg \<Rightarrow> Inl (OperationalError msg) | None \<Rightarrow> Inr ())"

subsection \<open>Binding and storing values\<close>

text \<open>
  A Python integer outside 64 bits cannot be bound to a parameter. (The ids passed to
  the operations are taken to lie within 64 bits, as the row ids of the engine do.)
\<close>

definition bindable :: "val \<Rightarrow> bool" where
  "bindable v = (case v of VInt n \<Rightarrow> - (2 ^ 63) \<le> n \<and> n < 2 ^ 63 | _ \<Rightarrow> True)"

definition bind_params :: "val list \<Rightarrow> py_error + unit" where
  "bind_params params = (if list_all bindable params then Inr () else Inl OverflowError)"

text \<open>A \<open>TEXT\<close> column stores an integer as its decimal text.\<close>

definition text_affinity :: "val \<Rightarrow> string option" where
  "text_affinity v = (case v of VNull \<Rightarrow> None | VInt n \<Rightarrow> Some (py_str_int n) | VText s \<Rightarrow> Some s)"

definition text_val :: "string option \<Rightarrow> val" where
  "text_val c = (case c of None \<Rightarrow> VNull | Some s \<Rightarrow> VText s)"

definition int_val :: "int option \<Rightarrow> val" where
  "int_val c = (case c of None \<Rightarrow> VNull | Some n \<Rightarrow> VInt n)"

definition bool_val :: "bool \<Rightarrow> val" where
  "bool_val b = VInt (if b then 1 else 0)"

text \<open>
  The column list shared by \<open>get_entries\<close>, \<open>get_entry_by_id\<close> and \<open>search_entries\<close>:
  the tuple the driver returns for one row.
\<close>

definition select_columns :: "entry \<Rightarrow> val list" where
  "select_columns e =
     [VInt (e_id e), VText (e_username e), text_val (e_filename e), text_val (e_description e),
      text_val (e_image_caption e), text_val (e_link e), text_val (e_link_summary e),
      text_val (e_categories e), e_uploaded_at e, VInt (e_user_id e),
      text_val (e_file_path e), int_val (e_file_size e), text_val (e_title e),
      text_val (e_tags e), int_val (e_image_width e), int_val (e_image_height e),
      text_val (e_notes e), e_is_favorite e, e_is_archived e]"

subsection \<open>\<open>get_user_by_username\<close>\<close>

definition get_user_by_username :: "env \<Rightarrow> database \<Rightarrow> string \<Rightarrow> py_error + user option" where
  "get_user_by_username ev d username =
     and_then (db_call ev Connect) (\<lambda>_.
     and_then (db_call ev Select) (\<lambda>_.
       Inr (find (\<lambda>u. u_username u = username) (users d))))"

subsection \<open>\<open>insert_data\<close>\<close>

text \<open>
  The categories and tags arguments: a list of strings, or any other value, which is
  bound as it is.
\<close>

datatype label_arg = LabelList "string list" | LabelValue val

definition ensure_string :: "label_arg \<Rightarrow> val" where
  "ensure_string a = (case a of LabelList xs \<Rightarrow> VText (py_join '', '' xs) | LabelValue v \<Rightarrow> v)"

text \<open>
  Writing the upload: the path, the size, the decoded dimensions and the new directory
  content, or the exception of the write.
\<close>

definition save_upload ::
  "env \<Rightarrow> filesystem \<Rightarrow> int \<Rightarrow> uploaded_file option \<Rightarrow>
   py_error + (string option \<times> int option \<times> int option \<times> int option \<times> filesystem)" where
  "save_upload ev fs user_id image_file =
     (case image_file of
        None \<Rightarrow> Inr (None, None, None, None, fs)
      | Some f \<Rightarrow>
          let file_path = ''uploads/'' @ py_str_int user_id @ ''_'' @ now_strftime ev @ ''_'' @ upload_name f
          in case os_write_error ev file_path of
               Some msg \<Rightarrow> Inl (OSError msg)
             | None \<Rightarrow>
                 let fs' = fs(file_path \<mapsto> upload_buffer f);
                     file_size = int (length (upload_buffer f))
                 in case image_size ev (upload_buffer f) of
                      None \<Rightarrow> Inr (Some file_path, Some file_size, None, None, fs')
                    | Some (w, h) \<Rightarrow> Inr (Some file_path, Some file_size, Some w, Some h, fs'))"

text \<open>The id of the next row: one more than the largest id that ever existed.\<close>

definition next_entry_id :: "database \<Rightarrow> int" where
  "next_entry_id d = foldr max (map e_id (entries d)) (entries_seq d) + 1"

definition insert_failure :: "py_error \<Rightarrow> bool \<times> string" where
  "insert_failure e = (False, ''Error saving entry: '' @ py_str e)"

definition insert_data ::
  "env \<Rightarrow> database \<Rightarrow> filesystem \<Rightarrow> string \<Rightarrow> uploaded_file option \<Rightarrow> string \<Rightarrow> string \<Rightarrow>
   string \<Rightarrow> label_arg \<Rightarrow> string \<Rightarrow> label_arg \<Rightarrow> string \<Rightarrow> bool \<Rightarrow> (string \<times> val) list \<Rightarrow>
   (bool \<times> string) \<times> database \<times> filesystem" where
  "insert_data ev d fs username image_file description link summary categories title tags
     notes is_favorite kwargs =
     (case and_then (db_call ev Connect) (\<lambda>_. get_user_by_username ev d username) of
        Inl e \<Rightarrow> (insert_failure e, d, fs)
      | Inr None \<Rightarrow> ((False, ''User not found''), d, fs)
      | Inr (Some user) \<Rightarrow>
          let user_id = u_id user;
              filename = (case image_file of Some f \<Rightarrow> upload_name f | None \<Rightarrow> [])
          in case save_upload ev fs user_id image_file of
               Inl e \<Rightarrow> (insert_failure e, d, fs)
             | Inr (file_path, file_size, image_width, image_height, fs') \<Rightarrow>
                 let title' = (if title = [] then
                                 (if filename \<noteq> [] then py_rsplit1_head CHR ''.'' filename
                                  else ''Untitled'')
                               else title);
                     categories' = ensure_string categories;
                     tags' = ensure_string tags;
                     row = \<lparr> e_id = next_entry_id d, e_user_id = user_id, e_username = username,
                             e_title = Some title', e_filename = Some filename,
                             e_description = Some description, e_image_caption = Some summary,
                             e_link = Some link, e_link_summary = Some [],
                             e_categories = text_affinity categories', e_tags = text_affinity tags',
                             e_file_path = file_path, e_file_size = file_size,
                             e_image_width = image_width, e_image_height = image_height,
                             e_notes = Some notes, e_is_favorite = bool_val is_favorite,
                             e_is_archived = bool_val False,
                             e_created_at = VText (current_timestamp ev),
                             e_updated_at = VText (current_timestamp ev),
                             e_uploaded_at = VText (current_timestamp ev) \<rparr>
                 in case and_then (bind_params [categories', tags']) (\<lambda>_.
                         and_then (db_call ev Insert) (\<lambda>_. db_call ev Commit)) of
                      Inl e \<Rightarrow> (insert_failure e, d, fs')
                    | Inr _ \<Rightarrow>
                        ((True, ''Entry saved successfully''),
                         d\<lparr>entries := entries d @ [row], entries_seq := next_entry_id d\<rparr>, fs'))"

subsection \<open>\<open>get_entry_by_id\<close>\<close>

text \<open>
  The row check shared by the read, update and delete paths: with a truthy \<open>user_id\<close>
  the row must carry it, otherwise the id alone decides.
\<close>

definition row_matches :: "int \<Rightarrow> int option \<Rightarrow> entry \<Rightarrow> bool" where
  "row_matches entry_id user_id e =
     (if truthy_id user_id then e_id e = entry_id \<and> Some (e_user_id e) = user_id
      else e_id e = entry_id)"

definition get_entry_by_id :: "env \<Rightarrow> database \<Rightarrow> int \<Rightarrow> int option \<Rightarrow> py_error + val list option" where
  "get_entry_by_id ev d entry_id user_id =
     and_then (db_call ev Connect) (\<lambda>_.
     and_then (db_call ev Select) (\<lambda>_.
       Inr (map_option select_columns (find (row_matches entry_id user_id) (entries d)))))"

subsection \<open>\<open>update_entry\<close>\<close>

definition allowed_fields :: "string list" where
  "allowed_fields =
     [''title'', ''description'', ''image_caption'', ''link'', ''link_summary'',
      ''categories'', ''tags'', ''notes'', ''is_favorite'', ''is_archived'']"

text \<open>
  One assignment \<open>field = ?\<close> of the \<open>UPDATE\<close> statement. The eight text columns store
  the value with text affinity; the two flags store \<open>NULL\<close> and integers as they are
  (a text bound to a flag is kept as text here, where the engine would first try to
  read it as a number).
\<close>

definition set_column :: "string \<Rightarrow> val \<Rightarrow> entry \<Rightarrow> entry" where
  "set_column field v e =
     (if field = ''title'' then e\<lparr>e_title := text_affinity v\<rparr>
      else if field = ''description'' then e\<lparr>e_description := text_affinity v\<rparr>
      else if field = ''image_caption'' then e\<lparr>e_image_caption := text_affinity v\<rparr>
      else if field = ''link'' then e\<lparr>e_link := text_affinity v\<rparr>
      else if field = ''link_summary'' then e\<lparr>e_link_summary := text_affinity v\<rparr>
      else if field = ''categories'' then e\<lparr>e_categories := text_affinity v\<rparr>
      else if field = ''tags'' then e\<lparr>e_tags := text_affinity v\<rparr>
      else if field = ''notes'' then e\<lparr>e_notes := text_affinity v\<rparr>
      else if field = ''is_favorite'' then e\<lparr>e_is_favorite := v\<rparr>
      else if field = ''is_archived'' then e\<lparr>e_is_archived := v\<rparr>
      else e)"

text \<open>The assignments in the order of the statement; a later one to the same column wins.\<close>

definition apply_assignments :: "(string \<times> val) list \<Rightarrow> entry \<Rightarrow> entry" where
  "apply_assignments update_fields e = foldl (\<lambda>r (field, v). set_column field v r) e update_fields"

text \<open>The loop over the patch: the items whose key is an allowed field, in order.\<close>

definition recognized_fields :: "(string \<times> val) list \<Rightarrow> (string \<times> val) list" where
  "recognized_fields update_data = filter (\<lambda>(field, v). field \<in> set allowed_fields) update_data"

definition update_entry_try ::
  "env \<Rightarrow> database \<Rightarrow> int \<Rightarrow> (string \<times> val) list \<Rightarrow> int option \<Rightarrow> py_error + bool \<times> database" where
  "update_entry_try ev d entry_id update_data user_id =
     and_then (db_call ev Connect) (\<lambda>_.
     and_then (db_call ev Select) (\<lambda>_.
       case find (row_matches entry_id user_id) (entries d) of
         None \<Rightarrow> Inr (False, d)
       | Some _ \<Rightarrow>
           let update_fields = recognized_fields update_data
           in if update_fields = [] then Inr (False, d)
              else
                and_then (bind_params (map snd update_fields)) (\<lambda>_.
                and_then (db_call ev Update) (\<lambda>_.
                and_then (db_call ev Commit) (\<lambda>_.
                  Inr (True,
                       d\<lparr>entries :=
                           map (\<lambda>e. if e_id e = entry_id
                                     then (apply_assignments update_fields e)
                                            \<lparr>e_updated_at := VText (now_isoformat ev)\<rparr>
                                     else e)
                               (entries d)\<rparr>))))))"

definition update_entry ::
  "env \<Rightarrow> database \<Rightarrow> int \<Rightarrow> (string \<times> val) list \<Rightarrow> int option \<Rightarrow> bool \<times> database" where
  "update_entry ev d entry_id update_data user_id =
     (case update_entry_try ev d entry_id update_data user_id of
        Inl e \<Rightarrow> (False, d)
      | Inr r \<Rightarrow> r)"

subsection \<open>Columns by name\<close>

text \<open>The value of a column of a row, as a \<open>SELECT\<close> of that column returns it.\<close>

definition column_value :: "string \<Rightarrow> entry \<Rightarrow> val" where
  "column_value field e =
     (if field = ''id'' then VInt (e_id e)
      else if field = ''user_id'' then VInt (e_user_id e)
      else if field = ''username'' then VText (e_username e)
      else if field = ''title'' then text_val (e_title e)
      else if field = ''filename'' then text_val (e_filename e)
      else if field = ''description'' then text_val (e_description e)
      else if field = ''image_caption'' then text_val (e_image_caption e)
      else if field = ''link'' then text_val (e_link e)
      else if field = ''link_summary'' then text_val (e_link_summary e)
      else if field = ''categories'' then text_val (e_categories e)
      else if field = ''tags'' then text_val (e_tags e)
      else if field = ''file_path'' then text_val (e_file_path e)
      else if field = ''file_size'' then int_val (e_file_size e)
      else if field = ''image_width'' then int_val (e_image_width e)
      else if field = ''image_height'' then int_val (e_image_height e)
      else if field = ''notes'' then text_val (e_notes e)
      else if field = ''is_favorite'' then e_is_favorite e
      else if field = ''is_archived'' then e_is_archived e
      else if field = ''created_at'' then e_created_at e
      else if field = ''updated_at'' then e_updated_at e
      else if field = ''uploaded_at'' then e_uploaded_at e
      else VNull)"

text \<open>What an updatable column holds once a value has been written to it.\<close>

definition stored_value :: "string \<Rightarrow> val \<Rightarrow> val" where
  "stored_value field v =
     (if field = ''is_favorite'' \<or> field = ''is_archived'' then v else text_val (text_affinity v))"

subsection \<open>\<open>delete_entry\<close>\<close>

text \<open>
  \<open>os.remove\<close> inside its own \<open>try\<close>: an exception leaves the file and is dropped.
\<close>

definition remove_file :: "env \<Rightarrow> filesystem \<Rightarrow> string option \<Rightarrow> filesystem" where
  "remove_file ev fs file_path =
     (case file_path of
        None \<Rightarrow> fs
      | Some p \<Rightarrow>
          if p \<noteq> [] \<and> fs p \<noteq> None
          then (case os_remove_error ev p of Some msg \<Rightarrow> fs | None \<Rightarrow> fs(p := None))
          else fs)"

text \<open>
  The row is gone only once \<open>commit\<close> has returned; the file is removed before that,
  so an exception of \<open>commit\<close> leaves the row and not the file.
\<close>

definition delete_entry ::
  "env \<Rightarrow> database \<Rightarrow> filesystem \<Rightarrow> int \<Rightarrow> int option \<Rightarrow> bool \<times> database \<times> filesystem" where
  "delete_entry ev d fs entry_id user_id =
     (case and_then (db_call ev Connect) (\<lambda>_. db_call ev Select) of
        Inl e \<Rightarrow> (False, d, fs)
      | Inr _ \<Rightarrow>
          (case find (row_matches entry_id user_id) (entries d) of
             None \<Rightarrow> (False, d, fs)
           | Some entry \<Rightarrow>
               (case db_call ev Delete of
                  Inl e \<Rightarrow> (False, d, fs)
                | Inr _ \<Rightarrow>
                    let fs' = remove_file ev fs (e_file_path entry)
                    in case db_call ev Commit of
                         Inl e \<Rightarrow> (False, d, fs')
                       | Inr _ \<Rightarrow>
                           (True,
                            d\<lparr>entries := filter (\<lambda>e. \<not> row_matches entry_id user_id e) (entries d)\<rparr>,
                            fs'))))"

subsection \<open>SQL expressions\<close>

text \<open>
  The engine folds the ASCII capitals only when it compares characters for \<open>LIKE\<close>.
\<close>

definition ascii_lower :: "char \<Rightarrow> char" where
  "ascii_lower c =
     (let n = (of_char c :: nat) in if 65 \<le> n \<and> n \<le> 90 then char_of (n + 32) else c)"

text \<open>
  \<open>text LIKE pattern\<close> without an escape character: \<open>%\<close> stands for any run of
  characters, \<open>_\<close> for any one character, every other character for itself up to
  ASCII case.
\<close>

fun like :: "string \<Rightarrow> string \<Rightarrow> bool" where
  "like [] [] = True"
| "like [] (c # cs) = False"
| "like (p # ps) [] = (p = CHR ''%'' \<and> like ps [])"
| "like (p # ps) (c # cs) =
     (if p = CHR ''%'' then like ps (c # cs) \<or> like (p # ps) cs
      else if p = CHR ''_'' then like ps cs
      else ascii_lower p = ascii_lower c \<and> like ps cs)"

text \<open>
  A truth value of SQL is true, false or \<open>NULL\<close> (\<open>None\<close>); a row passes \<open>WHERE\<close> only
  when the condition is true.
\<close>

definition sql_like :: "string option \<Rightarrow> string \<Rightarrow> bool option" where
  "sql_like column pattern = map_option (like pattern) column"

fun sql_or :: "bool option \<Rightarrow> bool option \<Rightarrow> bool option" where
  "sql_or (Some True) _ = Some True"
| "sql_or _ (Some True) = Some True"
| "sql_or (Some False) (Some False) = Some False"
| "sql_or _ _ = None"

fun sql_and :: "bool option \<Rightarrow> bool option \<Rightarrow> bool option" where
  "sql_and (Some False) _ = Some False"
| "sql_and _ (Some False) = Some False"
| "sql_and (Some True) (Some True) = Some True"
| "sql_and _ _ = None"

text \<open>\<open>column = n\<close> for an integer literal: a text is never equal to an integer.\<close>

definition sql_eq_int :: "val \<Rightarrow> int \<Rightarrow> bool option" where
  "sql_eq_int v n = (case v of VNull \<Rightarrow> None | VInt m \<Rightarrow> Some (m = n) | VText _ \<Rightarrow> Some False)"

definition sql_is_null :: "val \<Rightarrow> bool option" where
  "sql_is_null v = Some (v = VNull)"

text \<open>
  The order of values of different classes: \<open>NULL\<close> first, then the integers, then the
  texts, these by their characters.
\<close>

fun sql_less :: "val \<Rightarrow> val \<Rightarrow> bool" where
  "sql_less VNull VNull = False"
| "sql_less VNull _ = True"
| "sql_less (VInt a) (VInt b) = (a < b)"
| "sql_less (VInt a) (VText b) = True"
| "sql_less (VText a) (VText b) = (a < b)"
| "sql_less _ _ = False"

text \<open>
  \<open>ORDER BY key DESC\<close>; rows with equal keys stay in table order (the engine promises
  no order among them).
\<close>

fun insert_desc :: "('a \<Rightarrow> val) \<Rightarrow> 'a \<Rightarrow> 'a list \<Rightarrow> 'a list" where
  "insert_desc key x [] = [x]"
| "insert_desc key x (y # ys) =
     (if sql_less (key y) (key x) then x # y # ys else y # insert_desc key x ys)"

definition order_by_desc :: "('a \<Rightarrow> val) \<Rightarrow> 'a list \<Rightarrow> 'a list" where
  "order_by_desc key rows = foldl (\<lambda>sorted x. insert_desc key x sorted) [] rows"

subsection \<open>\<open>search_entries\<close>\<close>

text \<open>The six columns searched by the free-text query, in the order of the statement.\<close>

definition searched_columns :: "entry \<Rightarrow> string option list" where
  "searched_columns e =
     [e_title e, e_description e, e_image_caption e, e_filename e, e_tags e, e_notes e]"

text \<open>The conditions joined by \<open>AND\<close>, as the statement is put together.\<close>

definition search_conditions ::
  "string \<Rightarrow> string \<Rightarrow> string \<Rightarrow> string \<Rightarrow> bool \<Rightarrow> bool \<Rightarrow> entry \<Rightarrow> bool option list" where
  "search_conditions username search_query category tag favorites_only exclude_archived e =
     [Some (e_username e = username)]
     @ (if search_query \<noteq> [] then
          [foldr sql_or
             (map (\<lambda>column. sql_like column (''%'' @ search_query @ ''%'')) (searched_columns e))
             (Some False)]
        else [])
     @ (if category \<noteq> [] then [sql_like (e_categories e) (''%'' @ category @ ''%'')] else [])
     @ (if tag \<noteq> [] then [sql_like (e_tags e) (''%'' @ tag @ ''%'')] else [])
     @ (if favorites_only then [sql_eq_int (e_is_favorite e) 1] else [])
     @ (if exclude_archived
        then [sql_or (sql_eq_int (e_is_archived e) 0) (sql_is_null (e_is_archived e))] else [])"

definition search_where ::
  "string \<Rightarrow> string \<Rightarrow> string \<Rightarrow> string \<Rightarrow> bool \<Rightarrow> bool \<Rightarrow> entry \<Rightarrow> bool" where
  "search_where username search_query category tag favorites_only exclude_archived e =
     (foldr sql_and
        (search_conditions username search_query category tag favorites_only exclude_archived e)
        (Some True) = Some True)"

definition search_entries ::
  "env \<Rightarrow> database \<Rightarrow> string \<Rightarrow> string \<Rightarrow> string \<Rightarrow> string \<Rightarrow> bool \<Rightarrow> bool \<Rightarrow>
   (string \<times> val) list \<Rightarrow> val list list" where
  "search_entries ev d username search_query category tag favorites_only exclude_archived kwargs =
     (case and_then (db_call ev Connect) (\<lambda>_. db_call ev Select) of
        Inl e \<Rightarrow> []
      | Inr _ \<Rightarrow>
          map select_columns
            (order_by_desc e_uploaded_at
               (filter
                  (search_where username search_query category tag favorites_only exclude_archived)
                  (entries d))))"

subsection \<open>\<open>get_all_categories\<close> and \<open>get_all_tags\<close>\<close>

text \<open>
  \<open>SELECT DISTINCT column FROM entries WHERE username = ? AND column IS NOT NULL\<close>: the
  texts of the user's rows, each once.
\<close>

definition select_distinct :: "(entry \<Rightarrow> string option) \<Rightarrow> database \<Rightarrow> string \<Rightarrow> string list" where
  "select_distinct column d username =
     remdups (concat (map (\<lambda>e. case column e of None \<Rightarrow> [] | Some s \<Rightarrow> [s])
                          (filter (\<lambda>e. e_username e = username) (entries d))))"

text \<open>
  The loop over the rows: an empty text is skipped, any other is split at the commas
  and every piece is stripped and added to the set.
\<close>

definition collect_labels :: "string list \<Rightarrow> string set" where
  "collect_labels rows =
     set (concat (map (\<lambda>row. if row \<noteq> [] then map py_strip (py_split CHR '','' row) else []) rows))"

definition get_all_categories :: "env \<Rightarrow> database \<Rightarrow> string \<Rightarrow> py_error + string list" where
  "get_all_categories ev d username =
     and_then (db_call ev Connect) (\<lambda>_.
     and_then (db_call ev Select) (\<lambda>_.
       Inr (sorted_list_of_set (collect_labels (select_distinct e_categories d username)))))"

definition get_all_tags :: "env \<Rightarrow> database \<Rightarrow> string \<Rightarrow> py_error + string list" where
  "get_all_tags ev d username =
     and_then (db_call ev Connect) (\<lambda>_.
     and_then (db_call ev Select) (\<lambda>_.
       Inr (sorted_list_of_set (collect_labels (select_distinct e_tags d username)))))"

section \<open>The analysis adapter\<close>

subsection \<open>\<open>gemini_client\<close>\<close>

text \<open>
  The remote service as the client module sees it: the key read from the environment at
  import, and the two model calls, each returning the text of the response or raising
  (which covers a rejected image as well as a failed request).
\<close>

record gemini =
  api_key :: "string option"
  vision_generate :: "string \<Rightarrow> string \<Rightarrow> py_error + string"
  text_generate :: "string \<Rightarrow> py_error + string"

definition configured :: "gemini \<Rightarrow> bool" where
  "configured g = (case api_key g of None \<Rightarrow> False | Some k \<Rightarrow> k \<noteq> [])"

text \<open>
  The failure messages start with the warning sign U+26A0 and the variation selector
  U+FE0F, which lie beyond code point 255. Two characters that no operation of the model
  treats specially stand for them, so that lengths agree with Python's.
\<close>

definition warning_sign :: string where
  "warning_sign = [CHR 0x80, CHR 0x81]"

definition analyze_image_with_gemini :: "gemini \<Rightarrow> string \<Rightarrow> string \<Rightarrow> string" where
  "analyze_image_with_gemini g image_data prompt =
     (if \<not> configured g then
        ''Mock analysis: This appears to be an interesting image. The AI analysis is currently unavailable because the GEMINI_API_KEY is not configured.''
      else case vision_generate g prompt image_data of
             Inr text \<Rightarrow> py_strip text
           | Inl e \<Rightarrow> warning_sign @ '' Gemini Vision analysis failed: '' @ py_str e)"

definition summarize_with_gemini :: "gemini \<Rightarrow> string \<Rightarrow> string" where
  "summarize_with_gemini g text =
     (if \<not> configured g then
        ''Mock summary: This text discusses various topics. The AI summarization is currently unavailable because the GEMINI_API_KEY is not configured.''
      else case text_generate g text of
             Inr response \<Rightarrow> py_strip response
           | Inl e \<Rightarrow> warning_sign @ '' Gemini text summarization failed: '' @ py_str e)"

subsection \<open>\<open>image_processor\<close>\<close>

definition category_keywords :: "(string \<times> string list) list" where
  "category_keywords =
     [(''nature'', [''tree'', ''flower'', ''plant'', ''landscape'', ''mountain'', ''water'', ''sky'', ''outdoor'']),
      (''people'', [''person'', ''people'', ''human'', ''face'', ''portrait'', ''group'']),
      (''animal'', [''dog'', ''cat'', ''bird'', ''animal'', ''pet'', ''wildlife'']),
      (''food'', [''food'', ''meal'', ''cooking'', ''restaurant'', ''kitchen'', ''eating'']),
      (''technology'', [''computer'', ''phone'', ''device'', ''screen'', ''technology'', ''digital'']),
      (''vehicle'', [''car'', ''truck'', ''bike'', ''plane'', ''vehicle'', ''transportation'']),
      (''building'', [''building'', ''house'', ''architecture'', ''structure'', ''urban'']),
      (''art'', [''painting'', ''artwork'', ''drawing'', ''artistic'', ''creative'']),
      (''sport'', [''sport'', ''game'', ''playing'', ''exercise'', ''athletic'']),
      (''indoor'', [''indoor'', ''inside'', ''room'', ''interior'']),
      (''outdoor'', [''outdoor'', ''outside'', ''exterior'', ''landscape''])]"

text \<open>\<open>keyword in text_lower\<close> is the test for a contiguous sublist.\<close>

definition extract_categories_from_text :: "string \<Rightarrow> string list" where
  "extract_categories_from_text text =
     (let text_lower = py_lower text;
          found_categories =
            map fst (filter (\<lambda>(category, keywords). list_ex (\<lambda>keyword. sublist keyword text_lower) keywords)
                            category_keywords)
      in if found_categories \<noteq> [] then take 5 found_categories else [''general''])"

definition extract_caption_from_text :: "string \<Rightarrow> string" where
  "extract_caption_from_text text =
     (case find (\<lambda>sentence. length (py_strip sentence) > 10) (py_split CHR ''.'' text) of
        Some sentence \<Rightarrow>
          take 100 (py_strip sentence) @ (if length sentence > 100 then ''...'' else [])
      | None \<Rightarrow> ''Image analysis'')"

record analysis =
  res_summary :: string
  res_categories :: "string list"
  res_caption :: string
  res_full_analysis :: string

definition base_prompt :: string where
  "base_prompt =
     ''\<newline>        Analyze this image in detail and provide:\<newline>        1. A comprehensive description of what you see\<newline>        2. Identify key objects, people, activities, or scenes\<newline>        3. Note colors, composition, and visual elements\<newline>        4. Suggest 3-5 relevant categories/tags\<newline>        ''"

definition build_prompt :: "string \<Rightarrow> string \<Rightarrow> string" where
  "build_prompt description link =
     base_prompt
     @ (if description \<noteq> [] then ''\<newline>\<newline>Additional context provided by user: '' @ description else [])
     @ (if link \<noteq> [] then ''\<newline>\<newline>Related link context: '' @ link else [])"

text \<open>
  The body of the \<open>try\<close>. The two client functions are looked up when the body runs, so
  they are arguments here, and either may raise.
\<close>

definition analyze_image_try ::
  "(string \<Rightarrow> string \<Rightarrow> py_error + string) \<Rightarrow> (string \<Rightarrow> py_error + string) \<Rightarrow>
   string \<Rightarrow> string \<Rightarrow> string \<Rightarrow> py_error + analysis" where
  "analyze_image_try analyze summarize uploaded_image description link =
     and_then (analyze uploaded_image (build_prompt description link)) (\<lambda>analysis_result.
       let categories = extract_categories_from_text analysis_result
       in and_then
            (if length analysis_result > 500
             then summarize (''Provide a concise summary of this image analysis: '' @ analysis_result)
             else Inr analysis_result)
            (\<lambda>summary.
               Inr \<lparr> res_summary = summary, res_categories = categories,
                     res_caption = extract_caption_from_text analysis_result,
                     res_full_analysis = analysis_result \<rparr>))"

definition analysis_fallback :: "py_error \<Rightarrow> analysis" where
  "analysis_fallback e =
     \<lparr> res_summary = ''Image analysis encountered an error: '' @ py_str e,
       res_categories = [''error'', ''fallback''],
       res_caption = ''Analysis failed'',
       res_full_analysis = ''Error details: '' @ py_str e \<rparr>"

definition analyze_image_with ::
  "(string \<Rightarrow> string \<Rightarrow> py_error + string) \<Rightarrow> (string \<Rightarrow> py_error + string) \<Rightarrow>
   string \<Rightarrow> string \<Rightarrow> string \<Rightarrow> analysis" where
  "analyze_image_with analyze summarize uploaded_image description link =
     (case analyze_image_try analyze summarize uploaded_image description link of
        Inr result \<Rightarrow> result
      | Inl e \<Rightarrow> analysis_fallback e)"

text \<open>\<open>analyze_image\<close> with the client functions of \<open>gemini_client\<close>.\<close>

definition analyze_image :: "gemini \<Rightarrow> string \<Rightarrow> string \<Rightarrow> string \<Rightarrow> analysis" where
  "analyze_image g uploaded_image description link =
     analyze_image_with
       (\<lambda>image_data prompt. Inr (analyze_image_with_gemini g image_data prompt))
       (\<lambda>text. Inr (summarize_with_gemini g text))
       uploaded_image description link"

section \<open>Notions used in the statements\<close>

text \<open>
  The query occurs in a column as a substring, up to ASCII case; it occurs in no \<open>NULL\<close>.
\<close>

definition occurs_ci :: "string \<Rightarrow> string option \<Rightarrow> bool" where
  "occurs_ci q column =
     (case column of
        None \<Rightarrow> False
      | Some t \<Rightarrow> sublist (map ascii_lower q) (map ascii_lower t))"

text \<open>A text without the two wildcard characters of \<open>LIKE\<close>.\<close>

definition wildcard_free :: "string \<Rightarrow> bool" where
  "wildcard_free q = (CHR ''%'' \<notin> set q \<and> CHR ''_'' \<notin> set q)"

text \<open>No database call raises.\<close>

definition db_quiet :: "env \<Rightarrow> bool" where
  "db_quiet ev = list_all (\<lambda>s. db_fault ev s = None) [Connect, Select, Insert, Update, Delete, Commit]"

section \<open>Example data\<close>

text \<open>An environment in which nothing fails, two users and three of their entries.\<close>

definition quiet_env :: env where
  "quiet_env =
     \<lparr> db_fault = (\<lambda>_. None), os_write_error = (\<lambda>_. None), os_remove_error = (\<lambda>_. None),
       current_timestamp = ''2024-05-02 09:00:00'',
       now_isoformat = ''2024-05-02T11:00:00.000000'',
       now_strftime = ''20240502_110000'',
       image_size = (\<lambda>_. None) \<rparr>"

definition ann :: user where
  "ann = \<lparr> u_id = 1, u_username = ''ann'', u_email = ''ann@example.org'', u_full_name = None,
           u_created_at = VText ''2024-01-01 08:00:00'', u_last_login = VNull,
           u_is_active = VInt 1 \<rparr>"

definition bob :: user where
  "bob = \<lparr> u_id = 2, u_username = ''bob'', u_email = ''bob@example.org'', u_full_name = None,
           u_created_at = VText ''2024-01-01 08:30:00'', u_last_login = VNull,
           u_is_active = VInt 1 \<rparr>"

definition blank_entry :: entry where
  "blank_entry =
     \<lparr> e_id = 0, e_user_id = 0, e_username = [], e_title = None, e_filename = None,
       e_description = None, e_image_caption = None, e_link = None, e_link_summary = None,
       e_categories = None, e_tags = None, e_file_path = None, e_file_size = None,
       e_image_width = None, e_image_height = None, e_notes = None,
       e_is_favorite = VInt 0, e_is_archived = VInt 0,
       e_created_at = VNull, e_updated_at = VNull, e_uploaded_at = VNull \<rparr>"

definition sunset :: entry where
  "sunset = blank_entry
     \<lparr> e_id := 5, e_user_id := 1, e_username := ''ann'', e_title := Some ''x'',
       e_description := Some ''Sunset over the BAY'', e_categories := Some ''a, b'',
       e_tags := Some [], e_file_path := Some ''uploads/1_20240101_080000_sunset.jpg'',
       e_uploaded_at := VText ''2024-01-01 08:00:00'' \<rparr>"

definition harbour :: entry where
  "harbour = blank_entry
     \<lparr> e_id := 6, e_user_id := 1, e_username := ''ann'', e_title := Some ''Harbour'',
       e_categories := Some '' b , c'', e_is_archived := VNull,
       e_uploaded_at := VText ''2024-02-01 08:00:00'' \<rparr>"

definition kitten :: entry where
  "kitten = blank_entry
     \<lparr> e_id := 7, e_user_id := 2, e_username := ''bob'', e_title := Some ''Kitten'',
       e_is_archived := VInt 1, e_uploaded_at := VText ''2024-03-01 08:00:00'' \<rparr>"

definition example_db :: database where
  "example_db = \<lparr> users = [ann, bob], entries = [sunset, harbour, kitten], entries_seq = 7 \<rparr>"

definition example_fs :: filesystem where
  "example_fs = [''uploads/1_20240101_080000_sunset.jpg'' \<mapsto> ''JPEG'']"

text \<open>A client without a key, and one whose requests are all refused.\<close>

definition offline :: gemini where
  "offline = \<lparr> api_key = None,
               vision_generate = (\<lambda>prompt image. Inr []),
               text_generate = (\<lambda>prompt. Inr []) \<rparr>"

definition refused :: gemini where
  "refused = \<lparr> api_key = Some ''key'',
               vision_generate = (\<lambda>prompt image. Inl (RuntimeError ''quota exceeded'')),
               text_generate = (\<lambda>prompt. Inl (RuntimeError ''quota exceeded'')) \<rparr>"

section \<open>Properties of the field accessor\<close>

lemma get_field_cases:
  "get_field m entry name =
     (case map_of m name of
        None \<Rightarrow> Inr VNull
      | Some i \<Rightarrow> if i < length entry then Inr (entry ! i) else Inr VNull)"
  by (auto simp: get_field_def py_index_def map_of_eq_None_iff split: option.splits
      dest!: map_of_SomeD intro: rev_image_eqI)

lemma get_field_contract:
  "(\<exists>v. get_field m entry field_name = Inr v)
   \<and> (field_name \<notin> fst ` set m \<longrightarrow> get_field m entry field_name = Inr VNull)
   \<and> (\<forall>index. map_of m field_name = Some index \<longrightarrow>
          (length entry \<le> index \<longrightarrow> get_field m entry field_name = Inr VNull)
        \<and> (index < length entry \<longrightarrow> get_field m entry field_name = Inr (entry ! index)))"
proof -
  have "field_name \<notin> fst ` set m \<Longrightarrow> map_of m field_name = None"
    by (simp add: map_of_eq_None_iff)
  then show ?thesis
    by (auto simp: get_field_cases split: option.splits)
qed

text \<open>
  C8. For every tuple and every field name, each of the three copies of
  \<open>get_entry_field\<close> returns a value and never raises: \<open>None\<close> when the name is not in
  its table, \<open>None\<close> when the tuple is not longer than the position the table gives,
  and the element at that position otherwise.
\<close>

theorem get_entry_field_total:
  "(\<forall>g m. (g, m) \<in> set [(get_entry_field, field_mapping_streamlit_app),
                         (get_entry_field_app, field_mapping_app),
                         (get_entry_field_enhanced, field_mapping_enhanced)] \<longrightarrow>
        (\<exists>v. g entry field_name = Inr v)
      \<and> (field_name \<notin> fst ` set m \<longrightarrow> g entry field_name = Inr VNull)
      \<and> (\<forall>index. map_of m field_name = Some index \<longrightarrow>
             (length entry \<le> index \<longrightarrow> g entry field_name = Inr VNull)
           \<and> (index < length entry \<longrightarrow> g entry field_name = Inr (entry ! index))))"
proof (intro allI impI)
  fix g m
  assume "(g, m) \<in> set [(get_entry_field, field_mapping_streamlit_app),
                         (get_entry_field_app, field_mapping_app),
                         (get_entry_field_enhanced, field_mapping_enhanced)]"
  then have "g = get_field m"
    by (auto simp: get_entry_field_def get_entry_field_app_def get_entry_field_enhanced_def)
  then show "(\<exists>v. g entry field_name = Inr v)
      \<and> (field_name \<notin> fst ` set m \<longrightarrow> g entry field_name = Inr VNull)
      \<and> (\<forall>index. map_of m field_name = Some index \<longrightarrow>
             (length entry \<le> index \<longrightarrow> g entry field_name = Inr VNull)
           \<and> (index < length entry \<longrightarrow> g entry field_name = Inr (entry ! index)))"
    using get_field_contract [of m entry field_name] by simp
qed

theorem get_entry_field_total_witness:
  "get_entry_field [VInt 7, VText ''ann''] ''username'' = Inr (VText ''ann'')
   \<and> get_entry_field [VInt 7, VText ''ann''] ''tags'' = Inr VNull
   \<and> get_entry_field_app [VInt 7, VInt 3, VText ''ann''] ''username'' = Inr (VText ''ann'')
   \<and> get_entry_field_enhanced [VInt 7, VText ''ann''] ''colour'' = Inr VNull"
proof -
  have a: "map_of field_mapping_streamlit_app ''username'' = Some 1"
    by (simp add: field_mapping_streamlit_app_def)
  have b: "map_of field_mapping_streamlit_app ''tags'' = Some 13"
    by (simp add: field_mapping_streamlit_app_def)
  have c: "map_of field_mapping_app ''username'' = Some 2"
    by (simp add: field_mapping_app_def)
  have d: "''colour'' \<notin> fst ` set field_mapping_enhanced"
    by (simp add: field_mapping_enhanced_def)
  show ?thesis
    using get_entry_field_total [of "[VInt 7, VText ''ann'']" "''username''"]
      get_entry_field_total [of "[VInt 7, VText ''ann'']" "''tags''"]
      get_entry_field_total [of "[VInt 7, VInt 3, VText ''ann'']" "''username''"]
      get_entry_field_total [of "[VInt 7, VText ''ann'']" "''colour''"]
      a b c d
    by simp
qed

lemmas example_defs = quiet_env_def ann_def bob_def blank_entry_def sunset_def harbour_def
  kitten_def example_db_def example_fs_def

subsection \<open>Create\<close>

lemma foldr_max_ge: "x \<in> set xs \<Longrightarrow> x \<le> foldr max xs (a::int)"
  by (induction xs) auto

lemma next_entry_id_fresh: "e \<in> set (entries d) \<Longrightarrow> e_id e < next_entry_id d"
  using foldr_max_ge [of "e_id e" "map e_id (entries d)" "entries_seq d"]
  by (simp add: next_entry_id_def)

lemma find_append_fresh: "\<forall>x\<in>set xs. \<not> P x \<Longrightarrow> P y \<Longrightarrow> find P (xs @ [y]) = Some y"
  by (induction xs) auto

lemma insert_data_success:
  assumes "insert_data ev d fs username image_file description link summary categories title tags
     notes is_favorite kwargs = ((True, msg), d', fs')"
  shows "\<exists>row. d' = d\<lparr>entries := entries d @ [row], entries_seq := next_entry_id d\<rparr>
     \<and> e_id row = next_entry_id d
     \<and> e_username row = username
     \<and> e_image_caption row = Some summary
     \<and> e_link_summary row = Some []
     \<and> e_categories row = text_affinity (ensure_string categories)
     \<and> e_tags row = text_affinity (ensure_string tags)
     \<and> (\<exists>u. find (\<lambda>u. u_username u = username) (users d) = Some u \<and> e_user_id row = u_id u)"
  using assms
  by (auto simp: insert_data_def Let_def and_then_def insert_failure_def get_user_by_username_def
      split: sum.splits option.splits prod.splits if_splits)

lemma get_new_entry:
  assumes d': "d' = d\<lparr>entries := entries d @ [row], entries_seq := next_entry_id d\<rparr>"
    and id: "e_id row = next_entry_id d"
    and owner: "\<not> truthy_id user_id \<or> user_id = Some (e_user_id row)"
    and quiet: "db_fault ev Connect = None" "db_fault ev Select = None"
  shows "get_entry_by_id ev d' (entries_seq d') user_id = Inr (Some (select_columns row))"
proof -
  have "\<not> row_matches (next_entry_id d) user_id e" if "e \<in> set (entries d)" for e
    using next_entry_id_fresh [OF that] by (simp add: row_matches_def)
  then have "\<forall>e\<in>set (entries d). \<not> row_matches (next_entry_id d) user_id e"
    by blast
  moreover have "row_matches (next_entry_id d) user_id row"
    using id owner by (auto simp: row_matches_def)
  ultimately have "find (row_matches (next_entry_id d) user_id) (entries d @ [row]) = Some row"
    by (rule find_append_fresh)
  then show ?thesis
    using quiet by (simp add: get_entry_by_id_def and_then_def db_call_def d')
qed

lemma insert_data_succeeds:
  assumes user: "find (\<lambda>u. u_username u = username) (users d) = Some u"
    and db: "\<forall>s. db_fault ev s = None"
    and os: "\<forall>p. os_write_error ev p = None"
    and bind: "bindable (ensure_string categories)" "bindable (ensure_string tags)"
  shows "\<exists>d' fs'. insert_data ev d fs username image_file description link summary categories
     title tags notes is_favorite kwargs = ((True, ''Entry saved successfully''), d', fs')"
  using assms
  by (auto simp: insert_data_def Let_def and_then_def get_user_by_username_def db_call_def
      save_upload_def bind_params_def split: option.splits prod.splits)
text \<open>
  C1. When the owner exists, nothing fails in the store or on disk and the label
  arguments can be bound, \<open>insert_data\<close> succeeds and \<open>get_entry_by_id\<close> on the new id
  (without an owner, or with the owner's id) returns the new row; its categories and tags
  are the list joined with a comma and a space when a list was given, and the text itself
  when a text was given.
\<close>

theorem create_then_get_by_id_labels:
  assumes user: "find (\<lambda>u. u_username u = username) (users d) = Some u"
    and db: "\<forall>s. db_fault ev s = None"
    and os: "\<forall>p. os_write_error ev p = None"
    and bind: "bindable (ensure_string categories)" "bindable (ensure_string tags)"
    and owner: "user_id = None \<or> user_id = Some (u_id u)"
  shows "\<exists>msg d' fs' row.
      insert_data ev d fs username image_file description link summary categories title tags
        notes is_favorite kwargs = ((True, msg), d', fs')
    \<and> get_entry_by_id ev d' (entries_seq d') user_id = Inr (Some row)
    \<and> (\<forall>xs. categories = LabelList xs \<longrightarrow>
          get_entry_field row ''categories'' = Inr (VText (py_join '', '' xs)))
    \<and> (\<forall>s. categories = LabelValue (VText s) \<longrightarrow>
          get_entry_field row ''categories'' = Inr (VText s))
    \<and> (\<forall>xs. tags = LabelList xs \<longrightarrow>
          get_entry_field row ''tags'' = Inr (VText (py_join '', '' xs)))
    \<and> (\<forall>s. tags = LabelValue (VText s) \<longrightarrow>
          get_entry_field row ''tags'' = Inr (VText s))"
proof -
  obtain d' fs' where ins: "insert_data ev d fs username image_file description link summary
      categories title tags notes is_favorite kwargs = ((True, ''Entry saved successfully''), d', fs')"
    using insert_data_succeeds [OF user db os bind] by blast
  from insert_data_success [OF ins] obtain row where
    d': "d' = d\<lparr>entries := entries d @ [row], entries_seq := next_entry_id d\<rparr>"
    and id: "e_id row = next_entry_id d"
    and cats: "e_categories row = text_affinity (ensure_string categories)"
    and tags: "e_tags row = text_affinity (ensure_string tags)"
    and uid: "\<exists>u. find (\<lambda>u. u_username u = username) (users d) = Some u \<and> e_user_id row = u_id u"
    by blast
  from uid user have "e_user_id row = u_id u" by simp
  with owner have "\<not> truthy_id user_id \<or> user_id = Some (e_user_id row)"
    by (auto simp: truthy_id_def)
  then have get: "get_entry_by_id ev d' (entries_seq d') user_id = Inr (Some (select_columns row))"
    using get_new_entry [OF d' id] db by simp
  have c: "get_entry_field (select_columns row) ''categories'' = Inr (text_val (e_categories row))"
    by (simp add: get_entry_field_def get_field_cases field_mapping_streamlit_app_def
        select_columns_def)
  have t: "get_entry_field (select_columns row) ''tags'' = Inr (text_val (e_tags row))"
    by (simp add: get_entry_field_def get_field_cases field_mapping_streamlit_app_def
        select_columns_def)
  show ?thesis
    using ins get c t cats tags
    by (auto simp: ensure_string_def text_affinity_def text_val_def)
qed

theorem create_then_get_by_id_labels_witness:
  "find (\<lambda>u. u_username u = ''ann'') (users example_db) = Some ann
   \<and> (\<forall>s. db_fault quiet_env s = None) \<and> (\<forall>p. os_write_error quiet_env p = None)
   \<and> bindable (ensure_string (LabelList [''a'', ''b'']))
   \<and> bindable (ensure_string (LabelValue (VText ''t1,t2'')))
   \<and> (\<exists>msg d' fs' row.
        insert_data quiet_env example_db example_fs ''ann'' None ''d'' ''l'' ''s''
          (LabelList [''a'', ''b'']) ''t'' (LabelValue (VText ''t1,t2'')) ''n'' False []
          = ((True, msg), d', fs')
      \<and> get_entry_by_id quiet_env d' (entries_seq d') (Some 1) = Inr (Some row)
      \<and> get_entry_field row ''categories'' = Inr (VText ''a, b'')
      \<and> get_entry_field row ''tags'' = Inr (VText ''t1,t2''))"
proof -
  have user: "find (\<lambda>u. u_username u = ''ann'') (users example_db) = Some ann"
    by (simp add: example_defs)
  have db: "\<forall>s. db_fault quiet_env s = None" and os: "\<forall>p. os_write_error quiet_env p = None"
    by (simp_all add: quiet_env_def)
  have b1: "bindable (ensure_string (LabelList [''a'', ''b'']))"
    and b2: "bindable (ensure_string (LabelValue (VText ''t1,t2'')))"
    by (simp_all add: bindable_def ensure_string_def)
  have owner: "Some 1 = None \<or> Some 1 = Some (u_id ann)"
    by (simp add: ann_def)
  show ?thesis
    using create_then_get_by_id_labels [OF user db os b1 b2 owner,
        of example_fs None "''d''" "''l''" "''s''" "''t''" "''n''" False "[]"]
      user db os b1 b2
    by simp
qed

text \<open>
  C10. A successful \<open>insert_data\<close> appends one row whose \<open>link_summary\<close> is the empty
  text and whose \<open>image_caption\<close> is the \<open>summary\<close> argument; extra keyword arguments
  (a caption, a link summary) have no effect on the result.
\<close>

theorem create_stores_summary_as_caption:
  assumes "insert_data ev d fs username image_file description link summary categories title tags
     notes is_favorite kwargs = ((True, msg), d', fs')"
  shows "(\<exists>row. entries d' = entries d @ [row]
            \<and> e_link_summary row = Some [] \<and> e_image_caption row = Some summary)
    \<and> (\<forall>kwargs'. insert_data ev d fs username image_file description link summary categories
            title tags notes is_favorite kwargs' = ((True, msg), d', fs'))"
proof -
  from insert_data_success [OF assms] obtain row where
    "d' = d\<lparr>entries := entries d @ [row], entries_seq := next_entry_id d\<rparr>"
    "e_link_summary row = Some []" "e_image_caption row = Some summary"
    by blast
  then have "\<exists>row. entries d' = entries d @ [row]
            \<and> e_link_summary row = Some [] \<and> e_image_caption row = Some summary"
    by auto
  moreover have "insert_data ev d fs username image_file description link summary categories
      title tags notes is_favorite kwargs' = ((True, msg), d', fs')" for kwargs'
    using assms by (simp add: insert_data_def)
  ultimately show ?thesis by blast
qed

theorem create_stores_summary_as_caption_witness:
  "\<exists>msg d' fs'.
      insert_data quiet_env example_db example_fs ''ann'' None ''d'' ''l'' ''a summary''
        (LabelValue (VText [])) ''t'' (LabelValue (VText [])) ''n'' False
        [(''caption'', VText ''a caption''), (''link_summary'', VText ''about the link'')]
        = ((True, msg), d', fs')
    \<and> (\<exists>row. entries d' = entries example_db @ [row]
          \<and> e_link_summary row = Some [] \<and> e_image_caption row = Some ''a summary'')"
proof -
  obtain d' fs' where ins:
    "insert_data quiet_env example_db example_fs ''ann'' None ''d'' ''l'' ''a summary''
        (LabelValue (VText [])) ''t'' (LabelValue (VText [])) ''n'' False
        [(''caption'', VText ''a caption''), (''link_summary'', VText ''about the link'')]
        = ((True, ''Entry saved successfully''), d', fs')"
    by (simp add: insert_data_def example_defs Let_def and_then_def get_user_by_username_def
        db_call_def save_upload_def bind_params_def bindable_def ensure_string_def)
  show ?thesis
    using create_stores_summary_as_caption [OF ins] ins by blast
qed

subsection \<open>Update\<close>

text \<open>Reading a column by name after one field of the row has changed.\<close>

lemma column_value_title:
  "column_value f (e\<lparr>e_title := x\<rparr>) = (if f = ''title'' then text_val x else column_value f e)"
  by (cases "f = ''title''") (simp_all add: column_value_def split del: if_split cong: if_cong)

lemma column_value_description:
  "column_value f (e\<lparr>e_description := x\<rparr>) = (if f = ''description'' then text_val x else column_value f e)"
  by (cases "f = ''description''") (simp_all add: column_value_def split del: if_split cong: if_cong)

lemma column_value_image_caption:
  "column_value f (e\<lparr>e_image_caption := x\<rparr>) = (if f = ''image_caption'' then text_val x else column_value f e)"
  by (cases "f = ''image_caption''") (simp_all add: column_value_def split del: if_split cong: if_cong)

lemma column_value_link:
  "column_value f (e\<lparr>e_link := x\<rparr>) = (if f = ''link'' then text_val x else column_value f e)"
  by (cases "f = ''link''") (simp_all add: column_value_def split del: if_split cong: if_cong)

lemma column_value_link_summary:
  "column_value f (e\<lparr>e_link_summary := x\<rparr>) = (if f = ''link_summary'' then text_val x else column_value f e)"
  by (cases "f = ''link_summary''") (simp_all add: column_value_def split del: if_split cong: if_cong)

lemma column_value_categories:
  "column_value f (e\<lparr>e_categories := x\<rparr>) = (if f = ''categories'' then text_val x else column_value f e)"
  by (cases "f = ''categories''") (simp_all add: column_value_def split del: if_split cong: if_cong)

lemma column_value_tags:
  "column_value f (e\<lparr>e_tags := x\<rparr>) = (if f = ''tags'' then text_val x else column_value f e)"
  by (cases "f = ''tags''") (simp_all add: column_value_def split del: if_split cong: if_cong)

lemma column_value_notes:
  "column_value f (e\<lparr>e_notes := x\<rparr>) = (if f = ''notes'' then text_val x else column_value f e)"
  by (cases "f = ''notes''") (simp_all add: column_value_def split del: if_split cong: if_cong)

lemma column_value_is_favorite:
  "column_value f (e\<lparr>e_is_favorite := x\<rparr>) = (if f = ''is_favorite'' then x else column_value f e)"
  by (cases "f = ''is_favorite''") (simp_all add: column_value_def split del: if_split cong: if_cong)

lemma column_value_is_archived:
  "column_value f (e\<lparr>e_is_archived := x\<rparr>) = (if f = ''is_archived'' then x else column_value f e)"
  by (cases "f = ''is_archived''") (simp_all add: column_value_def split del: if_split cong: if_cong)

lemma column_value_updated_at:
  "column_value f (e\<lparr>e_updated_at := x\<rparr>) = (if f = ''updated_at'' then x else column_value f e)"
  by (cases "f = ''updated_at''") (simp_all add: column_value_def split del: if_split cong: if_cong)

lemmas column_value_update =
  column_value_title column_value_description column_value_image_caption
  column_value_link column_value_link_summary column_value_categories
  column_value_tags column_value_notes column_value_is_favorite
  column_value_is_archived column_value_updated_at

lemma column_value_set_column:
  "column_value f (set_column g v e) =
     (if f = g \<and> g \<in> set allowed_fields then stored_value g v else column_value f e)"
  by (simp add: set_column_def column_value_update allowed_fields_def stored_value_def)

lemma column_value_apply_assignments:
  "column_value f (apply_assignments us e) =
     (case map_of (rev (recognized_fields us)) f of
        Some v \<Rightarrow> stored_value f v
      | None \<Rightarrow> column_value f e)"
  unfolding recognized_fields_def
proof (induction us rule: rev_induct)
  case Nil
  then show ?case by (simp add: apply_assignments_def)
next
  case (snoc u us)
  obtain g v where u: "u = (g, v)" by (cases u)
  have "apply_assignments (us @ [u]) e = set_column g v (apply_assignments us e)"
    by (simp add: apply_assignments_def u)
  then show ?case
    using snoc by (simp add: column_value_set_column u)
qed

lemma map_of_rev_recognized:
  "map_of (rev (recognized_fields us)) f =
     (if f \<in> set allowed_fields then map_of (rev us) f else None)"
  by (induction us rule: rev_induct) (auto simp: recognized_fields_def)

lemma find_Some_witness: "find P xs = Some x \<Longrightarrow> x \<in> set xs \<and> P x"
  by (induction xs) (auto split: if_splits)

lemma update_entry_success:
  assumes "update_entry ev d entry_id update_data user_id = (True, d')"
  shows "recognized_fields update_data \<noteq> []
    \<and> (\<exists>e. find (row_matches entry_id user_id) (entries d) = Some e)
    \<and> d' = d\<lparr>entries :=
               map (\<lambda>e. if e_id e = entry_id
                         then (apply_assignments (recognized_fields update_data) e)
                                \<lparr>e_updated_at := VText (now_isoformat ev)\<rparr>
                         else e)
                   (entries d)\<rparr>"
  using assms
  by (auto simp: update_entry_def update_entry_try_def and_then_def Let_def
      split: sum.splits option.splits if_splits)

lemma updated_row_columns:
  assumes "e' = (apply_assignments (recognized_fields us) e)\<lparr>e_updated_at := VText now\<rparr>"
  shows "column_value ''updated_at'' e' = VText now"
    and "f \<in> set allowed_fields \<Longrightarrow> map_of (rev us) f = Some v \<Longrightarrow>
         column_value f e' = stored_value f v"
    and "f \<noteq> ''updated_at'' \<Longrightarrow> f \<notin> set allowed_fields \<or> f \<notin> fst ` set us \<Longrightarrow>
         column_value f e' = column_value f e"
proof -
  have rec: "recognized_fields (recognized_fields us) = recognized_fields us"
    by (simp add: recognized_fields_def)
  show "column_value ''updated_at'' e' = VText now"
    by (simp add: assms column_value_updated_at)
  show "column_value f e' = stored_value f v"
    if "f \<in> set allowed_fields" "map_of (rev us) f = Some v"
  proof -
    from that have "f \<noteq> ''updated_at''" by (auto simp: allowed_fields_def)
    then show ?thesis
      using that
      by (simp add: assms column_value_updated_at column_value_apply_assignments rec
          map_of_rev_recognized)
  qed
  show "column_value f e' = column_value f e"
    if "f \<noteq> ''updated_at''" "f \<notin> set allowed_fields \<or> f \<notin> fst ` set us"
  proof -
    have "map_of (rev (recognized_fields us)) f = None"
      using that(2) by (auto simp: map_of_rev_recognized map_of_eq_None_iff)
    then show ?thesis
      using that(1)
      by (simp add: assms column_value_updated_at column_value_apply_assignments rec)
  qed
qed
lemma recognized_fields_empty:
  "recognized_fields us = [] \<longleftrightarrow> fst ` set us \<inter> set allowed_fields = {}"
  by (auto simp: recognized_fields_def filter_empty_conv)

lemma update_entry_recognized:
  "update_entry ev d entry_id update_data user_id =
   update_entry ev d entry_id (recognized_fields update_data) user_id"
proof -
  have idem: "recognized_fields (recognized_fields update_data) = recognized_fields update_data"
    by (simp add: recognized_fields_def)
  show ?thesis
    unfolding update_entry_def update_entry_try_def idem by (rule refl)
qed

lemma update_entry_unrecognized:
  assumes "recognized_fields update_data = []"
  shows "update_entry ev d entry_id update_data user_id = (False, d)"
  using assms
  by (simp add: update_entry_def update_entry_try_def and_then_def
      split: sum.splits option.splits)

text \<open>
  C2. \<open>update_entry\<close> gives the same result as on the patch cut down to the allowed
  fields; a patch without an allowed field returns \<open>False\<close> and leaves the store as it
  was; and a successful update changes only the rows with the given id, where
  \<open>updated_at\<close> becomes the current time, every allowed field named in the patch holds
  its (last) value, and every other column keeps its value.
\<close>

theorem update_entry_whitelist:
  "update_entry ev d entry_id update_data user_id =
     update_entry ev d entry_id (recognized_fields update_data) user_id
   \<and> (fst ` set update_data \<inter> set allowed_fields = {} \<longrightarrow>
        update_entry ev d entry_id update_data user_id = (False, d))
   \<and> (\<forall>d'. update_entry ev d entry_id update_data user_id = (True, d') \<longrightarrow>
          fst ` set update_data \<inter> set allowed_fields \<noteq> {}
        \<and> users d' = users d \<and> entries_seq d' = entries_seq d
        \<and> length (entries d') = length (entries d)
        \<and> (\<exists>e\<in>set (entries d). e_id e = entry_id)
        \<and> (\<forall>i<length (entries d).
              if e_id (entries d ! i) = entry_id then
                 column_value ''updated_at'' (entries d' ! i) = VText (now_isoformat ev)
               \<and> (\<forall>f v. f \<in> set allowed_fields \<and> map_of (rev update_data) f = Some v \<longrightarrow>
                      column_value f (entries d' ! i) = stored_value f v)
               \<and> (\<forall>f. f \<noteq> ''updated_at''
                        \<and> (f \<notin> set allowed_fields \<or> f \<notin> fst ` set update_data) \<longrightarrow>
                      column_value f (entries d' ! i) = column_value f (entries d ! i))
              else entries d' ! i = entries d ! i))"
proof (intro conjI allI impI)
  show "update_entry ev d entry_id update_data user_id =
     update_entry ev d entry_id (recognized_fields update_data) user_id"
    by (rule update_entry_recognized)
next
  assume "fst ` set update_data \<inter> set allowed_fields = {}"
  then show "update_entry ev d entry_id update_data user_id = (False, d)"
    by (simp add: update_entry_unrecognized recognized_fields_empty)
next
  fix d'
  assume ok: "update_entry ev d entry_id update_data user_id = (True, d')"
  let ?upd = "\<lambda>e. if e_id e = entry_id
                   then (apply_assignments (recognized_fields update_data) e)
                          \<lparr>e_updated_at := VText (now_isoformat ev)\<rparr>
                   else e"
  from update_entry_success [OF ok] obtain e0 where
    rec: "recognized_fields update_data \<noteq> []"
    and found: "find (row_matches entry_id user_id) (entries d) = Some e0"
    and d': "d' = d\<lparr>entries := map ?upd (entries d)\<rparr>"
    by blast
  show "fst ` set update_data \<inter> set allowed_fields \<noteq> {}"
    using rec by (simp add: recognized_fields_empty)
  show "users d' = users d" "entries_seq d' = entries_seq d"
    "length (entries d') = length (entries d)"
    by (simp_all add: d')
  show "\<exists>e\<in>set (entries d). e_id e = entry_id"
    using find_Some_witness [OF found] by (auto simp: row_matches_def split: if_splits)
  show "if e_id (entries d ! i) = entry_id then
                 column_value ''updated_at'' (entries d' ! i) = VText (now_isoformat ev)
               \<and> (\<forall>f v. f \<in> set allowed_fields \<and> map_of (rev update_data) f = Some v \<longrightarrow>
                      column_value f (entries d' ! i) = stored_value f v)
               \<and> (\<forall>f. f \<noteq> ''updated_at''
                        \<and> (f \<notin> set allowed_fields \<or> f \<notin> fst ` set update_data) \<longrightarrow>
                      column_value f (entries d' ! i) = column_value f (entries d ! i))
              else entries d' ! i = entries d ! i"
    if i: "i < length (entries d)" for i
  proof (cases "e_id (entries d ! i) = entry_id")
    case True
    then have row: "entries d' ! i =
        (apply_assignments (recognized_fields update_data) (entries d ! i))
          \<lparr>e_updated_at := VText (now_isoformat ev)\<rparr>"
      using i by (simp add: d')
    show ?thesis
      using True updated_row_columns [OF row] by simp
  next
    case False
    then show ?thesis using i by (simp add: d')
  qed
qed

theorem update_entry_whitelist_witness:
  "update_entry quiet_env example_db 5 [(''id'', VInt 99), (''owner'', VText ''bob'')] None
     = (False, example_db)
   \<and> (\<exists>d'. update_entry quiet_env example_db 5
               [(''title'', VText ''Dusk''), (''id'', VInt 99)] None = (True, d')
          \<and> column_value ''updated_at'' (entries d' ! 0) = VText ''2024-05-02T11:00:00.000000''
          \<and> column_value ''title'' (entries d' ! 0) = VText ''Dusk''
          \<and> column_value ''id'' (entries d' ! 0) = VInt 5
          \<and> entries d' ! 1 = harbour)"
proof -
  let ?patch = "[(''title'', VText ''Dusk''), (''id'', VInt 99)]"
  have none: "fst ` set [(''id'', VInt 99), (''owner'', VText ''bob'')] \<inter> set allowed_fields = {}"
    by (simp add: allowed_fields_def)
  obtain d' where ok: "update_entry quiet_env example_db 5 ?patch None = (True, d')"
    by (simp add: update_entry_def update_entry_try_def and_then_def db_call_def
        recognized_fields_def allowed_fields_def row_matches_def truthy_id_def
        bind_params_def bindable_def example_defs)
  have len: "0 < length (entries example_db)" "1 < length (entries example_db)"
    by (simp_all add: example_db_def)
  have ids: "e_id (entries example_db ! 0) = 5" "e_id (entries example_db ! 1) \<noteq> 5"
    "entries example_db ! 1 = harbour"
    "column_value ''id'' (entries example_db ! 0) = VInt 5"
    by (simp_all add: example_db_def sunset_def harbour_def blank_entry_def column_value_def)
  have keys: "''title'' \<in> set allowed_fields" "map_of (rev ?patch) ''title'' = Some (VText ''Dusk'')"
    "''id'' \<noteq> ''updated_at''" "''id'' \<notin> set allowed_fields"
    "stored_value ''title'' (VText ''Dusk'') = VText ''Dusk''"
    "now_isoformat quiet_env = ''2024-05-02T11:00:00.000000''"
    by (simp_all add: allowed_fields_def stored_value_def text_val_def text_affinity_def
        quiet_env_def)
  show ?thesis
    using update_entry_whitelist [of quiet_env example_db 5
        "[(''id'', VInt 99), (''owner'', VText ''bob'')]" None] none
      update_entry_whitelist [of quiet_env example_db 5 ?patch None] ok len ids keys
    by (metis (no_types, lifting))
qed

subsection \<open>Ownership\<close>

lemma find_None_all: "find P xs = None \<longleftrightarrow> (\<forall>x\<in>set xs. \<not> P x)"
  by (induction xs) auto

lemma update_entry_not_found:
  assumes "find (row_matches entry_id user_id) (entries d) = None"
  shows "update_entry ev d entry_id update_data user_id = (False, d)"
  using assms
  by (simp add: update_entry_def update_entry_try_def and_then_def split: sum.splits)

text \<open>
  C3, as stated, fails for the owner id 0: \<open>if user_id:\<close> takes 0 for no owner at all,
  so the update of entry 5 of user 1 goes through.
\<close>

theorem update_entry_owner_zero_counterexample:
  "e_id sunset = 5 \<and> e_user_id sunset \<noteq> 0
   \<and> update_entry quiet_env example_db 5 [(''is_favorite'', VInt 1)] (Some 0)
       = (True, example_db\<lparr>entries :=
                  [sunset\<lparr>e_is_favorite := VInt 1,
                          e_updated_at := VText ''2024-05-02T11:00:00.000000''\<rparr>,
                   harbour, kitten]\<rparr>)"
  by (simp add: update_entry_def update_entry_try_def and_then_def db_call_def
      recognized_fields_def allowed_fields_def row_matches_def truthy_id_def
      bind_params_def bindable_def apply_assignments_def set_column_def example_defs)

text \<open>
  C3, amended. For every entry id, patch and owner id other than 0: if no entry with
  that id belongs to that owner, \<open>update_entry\<close> returns \<open>False\<close> and leaves the store
  (\<open>updated_at\<close> included) as it was, which is also its answer when no entry has the id.
\<close>

theorem update_entry_foreign_owner:
  assumes "owner \<noteq> 0"
    and "\<forall>e\<in>set (entries d). e_id e = entry_id \<longrightarrow> e_user_id e \<noteq> owner"
  shows "update_entry ev d entry_id update_data (Some owner) = (False, d)
    \<and> fst (update_entry ev (d\<lparr>entries := filter (\<lambda>e. e_id e \<noteq> entry_id) (entries d)\<rparr>)
            entry_id update_data (Some owner)) = False"
proof -
  have "find (row_matches entry_id (Some owner)) (entries d) = None"
    using assms by (auto simp: find_None_all row_matches_def truthy_id_def)
  moreover have "find (row_matches entry_id (Some owner))
      (entries (d\<lparr>entries := filter (\<lambda>e. e_id e \<noteq> entry_id) (entries d)\<rparr>)) = None"
    by (auto simp: find_None_all row_matches_def truthy_id_def)
  ultimately show ?thesis
    by (simp add: update_entry_not_found)
qed

theorem update_entry_foreign_owner_witness:
  "(2::int) \<noteq> 0 \<and> e_id sunset = 5 \<and> e_user_id sunset = 1
   \<and> update_entry quiet_env example_db 5 [(''is_favorite'', VInt 1)] (Some 2)
       = (False, example_db)"
proof -
  have h: "\<forall>e\<in>set (entries example_db). e_id e = 5 \<longrightarrow> e_user_id e \<noteq> 2"
    by (simp add: example_defs)
  show ?thesis
    using update_entry_foreign_owner [of 2 example_db 5 quiet_env "[(''is_favorite'', VInt 1)]"] h
    by (simp add: sunset_def blank_entry_def)
qed

subsection \<open>Delete\<close>

lemma delete_entry_not_found:
  assumes "find (row_matches entry_id user_id) (entries d) = None"
  shows "delete_entry ev d fs entry_id user_id = (False, d, fs)"
  using assms by (simp add: delete_entry_def split: sum.splits)

lemma delete_entry_found:
  assumes "find (row_matches entry_id user_id) (entries d) = Some e"
  shows "delete_entry ev d fs entry_id user_id =
     (if db_fault ev Connect = None \<and> db_fault ev Select = None \<and> db_fault ev Delete = None
      then if db_fault ev Commit = None
           then (True, d\<lparr>entries := filter (\<lambda>e. \<not> row_matches entry_id user_id e) (entries d)\<rparr>,
                 remove_file ev fs (e_file_path e))
           else (False, d, remove_file ev fs (e_file_path e))
      else (False, d, fs))"
  using assms
  by (auto simp: delete_entry_def and_then_def db_call_def Let_def split: option.splits)

text \<open>
  C4, as stated, fails for the owner id 0: entry 5 belongs to user 1, yet the delete
  with owner 0 returns \<open>True\<close>, removes the row and removes the file.
\<close>

theorem delete_entry_owner_zero_counterexample:
  "e_id sunset = 5 \<and> e_user_id sunset \<noteq> 0
   \<and> delete_entry quiet_env example_db example_fs 5 (Some 0)
       = (True, example_db\<lparr>entries := [harbour, kitten]\<rparr>, Map.empty)"
  by (simp add: delete_entry_def and_then_def db_call_def row_matches_def truthy_id_def
      remove_file_def example_defs)

text \<open>
  C4, amended. When no entry has the id, or the owner id is not 0 and no entry with the
  id belongs to that owner, \<open>delete_entry\<close> returns \<open>False\<close> and leaves the store and the
  files as they were. When the row is there, the result is \<open>True\<close> exactly when none of
  the four database calls raises, whatever happens to the file, and then the rows with
  that id (and owner) are gone.
\<close>

theorem delete_entry_contract:
  "(((\<forall>e\<in>set (entries d). e_id e \<noteq> entry_id)
      \<or> (\<exists>owner. user_id = Some owner \<and> owner \<noteq> 0
            \<and> (\<forall>e\<in>set (entries d). e_id e = entry_id \<longrightarrow> e_user_id e \<noteq> owner))) \<longrightarrow>
      delete_entry ev d fs entry_id user_id = (False, d, fs))
   \<and> ((\<exists>e\<in>set (entries d). row_matches entry_id user_id e) \<longrightarrow>
        (fst (delete_entry ev d fs entry_id user_id) \<longleftrightarrow>
           db_fault ev Connect = None \<and> db_fault ev Select = None
           \<and> db_fault ev Delete = None \<and> db_fault ev Commit = None)
      \<and> (fst (delete_entry ev d fs entry_id user_id) \<longrightarrow>
           entries (fst (snd (delete_entry ev d fs entry_id user_id)))
             = filter (\<lambda>e. \<not> row_matches entry_id user_id e) (entries d)))"
proof (intro conjI impI)
  assume "(\<forall>e\<in>set (entries d). e_id e \<noteq> entry_id)
      \<or> (\<exists>owner. user_id = Some owner \<and> owner \<noteq> 0
            \<and> (\<forall>e\<in>set (entries d). e_id e = entry_id \<longrightarrow> e_user_id e \<noteq> owner))"
  then have "find (row_matches entry_id user_id) (entries d) = None"
    by (auto simp: find_None_all row_matches_def truthy_id_def)
  then show "delete_entry ev d fs entry_id user_id = (False, d, fs)"
    by (rule delete_entry_not_found)
next
  assume "\<exists>e\<in>set (entries d). row_matches entry_id user_id e"
  then obtain e where e: "find (row_matches entry_id user_id) (entries d) = Some e"
    using find_None_all [of "row_matches entry_id user_id" "entries d"] by fastforce
  show "fst (delete_entry ev d fs entry_id user_id) \<longleftrightarrow>
           db_fault ev Connect = None \<and> db_fault ev Select = None
           \<and> db_fault ev Delete = None \<and> db_fault ev Commit = None"
    by (simp add: delete_entry_found [OF e])
  show "entries (fst (snd (delete_entry ev d fs entry_id user_id)))
             = filter (\<lambda>e. \<not> row_matches entry_id user_id e) (entries d)"
    if "fst (delete_entry ev d fs entry_id user_id)"
    using that by (simp add: delete_entry_found [OF e] split: if_splits)
qed

theorem delete_entry_contract_witness:
  "delete_entry (quiet_env\<lparr>os_remove_error := (\<lambda>_. Some ''Permission denied'')\<rparr>)
       example_db example_fs 5 (Some 2) = (False, example_db, example_fs)
   \<and> delete_entry (quiet_env\<lparr>os_remove_error := (\<lambda>_. Some ''Permission denied'')\<rparr>)
       example_db example_fs 9 None = (False, example_db, example_fs)
   \<and> fst (delete_entry (quiet_env\<lparr>os_remove_error := (\<lambda>_. Some ''Permission denied'')\<rparr>)
       example_db example_fs 5 (Some 1))
   \<and> entries (fst (snd (delete_entry
         (quiet_env\<lparr>os_remove_error := (\<lambda>_. Some ''Permission denied'')\<rparr>)
         example_db example_fs 5 (Some 1)))) = [harbour, kitten]"
proof -
  let ?ev = "quiet_env\<lparr>os_remove_error := (\<lambda>_. Some ''Permission denied'')\<rparr>"
  have a: "\<exists>owner. Some 2 = Some owner \<and> owner \<noteq> (0::int)
            \<and> (\<forall>e\<in>set (entries example_db). e_id e = 5 \<longrightarrow> e_user_id e \<noteq> owner)"
    by (simp add: example_defs)
  have b: "\<forall>e\<in>set (entries example_db). e_id e \<noteq> 9"
    by (simp add: example_defs)
  have c: "\<exists>e\<in>set (entries example_db). row_matches 5 (Some 1) e"
    by (simp add: example_defs row_matches_def truthy_id_def)
  have q: "db_fault ?ev Connect = None" "db_fault ?ev Select = None"
    "db_fault ?ev Delete = None" "db_fault ?ev Commit = None"
    by (simp_all add: quiet_env_def)
  have f: "filter (\<lambda>e. \<not> row_matches 5 (Some 1) e) (entries example_db) = [harbour, kitten]"
    by (simp add: example_defs row_matches_def truthy_id_def)
  show ?thesis
    using delete_entry_contract [of example_db 5 "Some 2" ?ev example_fs]
      delete_entry_contract [of example_db 9 None ?ev example_fs]
      delete_entry_contract [of example_db 5 "Some 1" ?ev example_fs]
      a b c q f
    by simp
qed

subsection \<open>Pattern matching\<close>

lemma like_percent_skip: "like ps t \<Longrightarrow> like (CHR ''%'' # ps) t"
  by (cases t) simp_all

lemma like_percent_drop: "like (CHR ''%'' # ps) t \<longleftrightarrow> (\<exists>k\<le>length t. like ps (drop k t))"
proof (induction t)
  case Nil
  then show ?case by simp
next
  case (Cons c cs)
  have "(\<exists>k\<le>length (c # cs). like ps (drop k (c # cs)))
      \<longleftrightarrow> like ps (c # cs) \<or> (\<exists>k\<le>length cs. like ps (drop k cs))"
  proof
    assume "\<exists>k\<le>length (c # cs). like ps (drop k (c # cs))"
    then obtain k where k: "k \<le> length (c # cs)" "like ps (drop k (c # cs))" by blast
    show "like ps (c # cs) \<or> (\<exists>k\<le>length cs. like ps (drop k cs))"
    proof (cases k)
      case 0
      with k show ?thesis by simp
    next
      case (Suc j)
      with k have "j \<le> length cs" "like ps (drop j cs)" by simp_all
      then show ?thesis by blast
    qed
  next
    assume "like ps (c # cs) \<or> (\<exists>k\<le>length cs. like ps (drop k cs))"
    then show "\<exists>k\<le>length (c # cs). like ps (drop k (c # cs))"
    proof
      assume "like ps (c # cs)"
      then have "0 \<le> length (c # cs) \<and> like ps (drop 0 (c # cs))" by simp
      then show ?thesis by blast
    next
      assume "\<exists>k\<le>length cs. like ps (drop k cs)"
      then obtain k where "k \<le> length cs" "like ps (drop k cs)" by blast
      then have "Suc k \<le> length (c # cs) \<and> like ps (drop (Suc k) (c # cs))" by simp
      then show ?thesis by blast
    qed
  qed
  with Cons show ?case by simp
qed

lemma like_only_percent: "like ''%'' t"
  using like_percent_drop [of "[]" t] by auto

lemma like_literal_prefix:
  assumes "wildcard_free q"
  shows "like (q @ r) t \<longleftrightarrow>
     (\<exists>a b. t = a @ b \<and> map ascii_lower a = map ascii_lower q \<and> like r b)"
  using assms
proof (induction q arbitrary: t)
  case Nil
  then show ?case by simp
next
  case (Cons p ps)
  then have p: "p \<noteq> CHR ''%''" "p \<noteq> CHR ''_''" and ps: "wildcard_free ps"
    by (auto simp: wildcard_free_def)
  show ?case
  proof (cases t)
    case Nil
    then show ?thesis using p by simp
  next
    case (Cons c cs)
    have "like ((p # ps) @ r) (c # cs) \<longleftrightarrow> ascii_lower p = ascii_lower c \<and> like (ps @ r) cs"
      using p by simp
    also have "\<dots> \<longleftrightarrow> ascii_lower p = ascii_lower c
        \<and> (\<exists>a b. cs = a @ b \<and> map ascii_lower a = map ascii_lower ps \<and> like r b)"
      using Cons.IH [OF ps] by simp
    also have "\<dots> \<longleftrightarrow> (\<exists>a b. c # cs = a @ b
        \<and> map ascii_lower a = map ascii_lower (p # ps) \<and> like r b)"
    proof
      assume "ascii_lower p = ascii_lower c
        \<and> (\<exists>a b. cs = a @ b \<and> map ascii_lower a = map ascii_lower ps \<and> like r b)"
      then obtain a b where "ascii_lower p = ascii_lower c" "cs = a @ b"
        "map ascii_lower a = map ascii_lower ps" "like r b" by blast
      then have "c # cs = (c # a) @ b \<and> map ascii_lower (c # a) = map ascii_lower (p # ps)
          \<and> like r b" by simp
      then show "\<exists>a b. c # cs = a @ b \<and> map ascii_lower a = map ascii_lower (p # ps) \<and> like r b"
        by blast
    next
      assume "\<exists>a b. c # cs = a @ b \<and> map ascii_lower a = map ascii_lower (p # ps) \<and> like r b"
      then obtain a b where ab: "c # cs = a @ b" "map ascii_lower a = map ascii_lower (p # ps)"
        "like r b" by blast
      from ab(2) obtain x xs where a: "a = x # xs" by (cases a) auto
      with ab show "ascii_lower p = ascii_lower c
        \<and> (\<exists>a b. cs = a @ b \<and> map ascii_lower a = map ascii_lower ps \<and> like r b)"
        by auto
    qed
    finally show ?thesis using Cons by simp
  qed
qed

lemma like_literal_prefix_if:
  assumes "map ascii_lower a = map ascii_lower q" and "like r b"
  shows "like (q @ r) (a @ b)"
  using assms
proof (induction q arbitrary: a)
  case Nil
  then show ?case by simp
next
  case (Cons p ps)
  then obtain c cs where a: "a = c # cs" by (cases a) auto
  with Cons.prems have c: "ascii_lower p = ascii_lower c"
    and cs: "map ascii_lower cs = map ascii_lower ps" by simp_all
  have rest: "like (ps @ r) (cs @ b)"
    using Cons.IH [OF cs Cons.prems(2)] .
  show ?case
  proof (cases "p = CHR ''%''")
    case True
    then show ?thesis using like_percent_skip [OF rest] by (simp add: a)
  next
    case False
    then show ?thesis using rest c by (simp add: a)
  qed
qed

lemma sublist_map_iff:
  "sublist (map f q) (map f t) \<longleftrightarrow> (\<exists>k a b. k \<le> length t \<and> drop k t = a @ b \<and> map f a = map f q)"
proof
  assume "sublist (map f q) (map f t)"
  then obtain ps ss where "map f t = ps @ map f q @ ss" by (auto simp: sublist_def)
  then obtain p r where pr: "t = p @ r" "map f q @ ss = map f r"
    unfolding map_eq_append_conv by blast
  from pr(2) obtain a s where as: "r = a @ s" "map f q = map f a"
    unfolding append_eq_map_conv by blast
  from pr as have t: "t = p @ a @ s" and a: "map f a = map f q" by simp_all
  then have "length p \<le> length t \<and> drop (length p) t = a @ s \<and> map f a = map f q" by simp
  then show "\<exists>k a b. k \<le> length t \<and> drop k t = a @ b \<and> map f a = map f q" by blast
next
  assume "\<exists>k a b. k \<le> length t \<and> drop k t = a @ b \<and> map f a = map f q"
  then obtain k a b where "drop k t = a @ b" "map f a = map f q" by blast
  then have "map f t = map f (take k t) @ map f q @ map f b"
    by (metis append_take_drop_id map_append)
  then show "sublist (map f q) (map f t)" by (auto simp: sublist_def)
qed

lemma like_contains_if:
  assumes "sublist (map ascii_lower q) (map ascii_lower t)"
  shows "like (''%'' @ q @ ''%'') t"
proof -
  from assms obtain k a b where k: "k \<le> length t" "drop k t = a @ b"
    "map ascii_lower a = map ascii_lower q"
    by (auto simp: sublist_map_iff)
  have "like (q @ ''%'') (a @ b)"
    using like_literal_prefix_if [OF k(3) like_only_percent] .
  then have "\<exists>k\<le>length t. like (q @ ''%'') (drop k t)"
    using k by auto
  then show ?thesis by (simp add: like_percent_drop)
qed

lemma like_contains_iff:
  assumes "wildcard_free q"
  shows "like (''%'' @ q @ ''%'') t \<longleftrightarrow> sublist (map ascii_lower q) (map ascii_lower t)"
proof
  assume "like (''%'' @ q @ ''%'') t"
  then obtain k where k: "k \<le> length t" "like (q @ ''%'') (drop k t)"
    by (auto simp: like_percent_drop)
  then obtain a b where "drop k t = a @ b" "map ascii_lower a = map ascii_lower q"
    using like_literal_prefix [OF assms, of "''%''" "drop k t"] by blast
  with k(1) show "sublist (map ascii_lower q) (map ascii_lower t)"
    by (auto simp: sublist_map_iff)
qed (rule like_contains_if)

subsection \<open>Search\<close>

lemma set_insert_desc: "set (insert_desc key x ys) = insert x (set ys)"
  by (induction ys) auto

lemma set_foldl_insert_desc:
  "set (foldl (\<lambda>sorted x. insert_desc key x sorted) acc xs) = set acc \<union> set xs"
  by (induction xs arbitrary: acc) (auto simp: set_insert_desc)

lemma set_order_by_desc: "set (order_by_desc key rows) = set rows"
  by (simp add: order_by_desc_def set_foldl_insert_desc)

lemma sql_and_true: "sql_and a b = Some True \<longleftrightarrow> a = Some True \<and> b = Some True"
  by (cases "(a, b)" rule: sql_and.cases) simp_all

lemma sql_or_true: "sql_or a b = Some True \<longleftrightarrow> a = Some True \<or> b = Some True"
  by (cases "(a, b)" rule: sql_or.cases) simp_all

lemma foldr_sql_and_true:
  "foldr sql_and cs (Some True) = Some True \<longleftrightarrow> (\<forall>c\<in>set cs. c = Some True)"
  by (induction cs) (auto simp: sql_and_true)

lemma foldr_sql_or_true:
  "foldr sql_or cs (Some False) = Some True \<longleftrightarrow> (\<exists>c\<in>set cs. c = Some True)"
  by (induction cs) (auto simp: sql_or_true)

lemma archived_condition:
  "sql_or (sql_eq_int v 0) (sql_is_null v) = Some True \<longleftrightarrow> v = VInt 0 \<or> v = VNull"
  by (cases v) (auto simp: sql_or_true sql_eq_int_def sql_is_null_def)

lemma condition_segment:
  "(\<forall>c\<in>set (if b then [x] else []). c = Some True) \<longleftrightarrow> (b \<longrightarrow> x = Some True)"
  by (cases b) simp_all

lemma query_condition:
  "foldr sql_or (map f columns) (Some False) = Some True
     \<longleftrightarrow> (\<exists>column\<in>set columns. f column = Some True)"
  by (auto simp: foldr_sql_or_true intro: rev_image_eqI)

lemma search_where_iff:
  "search_where username search_query category tag favorites_only exclude_archived e \<longleftrightarrow>
     e_username e = username
   \<and> (search_query \<noteq> [] \<longrightarrow>
        (\<exists>column\<in>set (searched_columns e).
            sql_like column (''%'' @ search_query @ ''%'') = Some True))
   \<and> (category \<noteq> [] \<longrightarrow> sql_like (e_categories e) (''%'' @ category @ ''%'') = Some True)
   \<and> (tag \<noteq> [] \<longrightarrow> sql_like (e_tags e) (''%'' @ tag @ ''%'') = Some True)
   \<and> (favorites_only \<longrightarrow> sql_eq_int (e_is_favorite e) 1 = Some True)
   \<and> (exclude_archived \<longrightarrow> e_is_archived e = VInt 0 \<or> e_is_archived e = VNull)"
proof -
  have single: "(\<forall>c\<in>set [x]. c = Some True) \<longleftrightarrow> x = Some True" for x :: "bool option"
    by simp
  have owner: "Some (e_username e = username) = Some True \<longleftrightarrow> e_username e = username"
    by simp
  show ?thesis
    unfolding search_where_def search_conditions_def foldr_sql_and_true set_append ball_Un
      condition_segment single query_condition archived_condition owner
    by (rule refl)
qed

lemma search_entries_set:
  assumes "db_fault ev Connect = None" "db_fault ev Select = None"
  shows "set (search_entries ev d username search_query category tag favorites_only
            exclude_archived kwargs)
     = select_columns `
         {e \<in> set (entries d).
            search_where username search_query category tag favorites_only exclude_archived e}"
  using assms
  by (auto simp: search_entries_def and_then_def db_call_def set_order_by_desc)

lemma search_entries_rows:
  "set (search_entries ev d username search_query category tag favorites_only
            exclude_archived kwargs)
     \<subseteq> select_columns `
         {e \<in> set (entries d).
            search_where username search_query category tag favorites_only exclude_archived e}"
  by (auto simp: search_entries_def and_then_def db_call_def set_order_by_desc
      split: sum.splits option.splits)

lemma row_is_archived:
  "get_entry_field (select_columns e) ''is_archived'' = Inr (e_is_archived e)"
  by (simp add: get_entry_field_def get_field_cases field_mapping_streamlit_app_def
      select_columns_def)

lemma sql_like_occurs:
  "occurs_ci q column \<Longrightarrow> sql_like column (''%'' @ q @ ''%'') = Some True"
  "wildcard_free q \<Longrightarrow> sql_like column (''%'' @ q @ ''%'') = Some True \<longleftrightarrow> occurs_ci q column"
  using like_contains_if [of q] like_contains_iff [of q]
  by (auto simp: occurs_ci_def sql_like_def split: option.splits)

text \<open>
  C5. With \<open>exclude_archived\<close> set, every row that \<open>search_entries\<close> returns has
  \<open>is_archived\<close> 0 or \<open>NULL\<close>, for any owner and any other filters; and when the
  database calls do not raise, every stored entry that passes the other filters and has
  \<open>is_archived\<close> \<open>NULL\<close> is returned.
\<close>

theorem search_exclude_archived:
  "(\<forall>row\<in>set (search_entries ev d username search_query category tag favorites_only True kwargs).
      get_entry_field row ''is_archived'' = Inr (VInt 0)
      \<or> get_entry_field row ''is_archived'' = Inr VNull)
   \<and> (db_fault ev Connect = None \<and> db_fault ev Select = None \<longrightarrow>
        (\<forall>e\<in>set (entries d).
            e_is_archived e = VNull
            \<and> search_where username search_query category tag favorites_only False e \<longrightarrow>
            select_columns e
              \<in> set (search_entries ev d username search_query category tag favorites_only True
                       kwargs)))"
proof (intro conjI ballI impI)
  fix row
  assume "row \<in> set (search_entries ev d username search_query category tag favorites_only True
      kwargs)"
  then obtain e where "row = select_columns e"
    "search_where username search_query category tag favorites_only True e"
    using search_entries_rows by blast
  then show "get_entry_field row ''is_archived'' = Inr (VInt 0)
      \<or> get_entry_field row ''is_archived'' = Inr VNull"
    by (auto simp: row_is_archived search_where_iff)
next
  fix e
  assume quiet: "db_fault ev Connect = None \<and> db_fault ev Select = None"
    and e: "e \<in> set (entries d)"
    and pass: "e_is_archived e = VNull
            \<and> search_where username search_query category tag favorites_only False e"
  then have "search_where username search_query category tag favorites_only True e"
    by (simp add: search_where_iff)
  with e quiet show "select_columns e
      \<in> set (search_entries ev d username search_query category tag favorites_only True kwargs)"
    by (auto simp: search_entries_set)
qed

theorem search_exclude_archived_witness:
  "e_is_archived harbour = VNull
   \<and> select_columns harbour \<in> set (search_entries quiet_env example_db ''ann'' [] [] [] False True [])
   \<and> e_is_archived kitten = VInt 1
   \<and> select_columns kitten \<notin> set (search_entries quiet_env example_db ''bob'' [] [] [] False True [])"
proof -
  have quiet: "db_fault quiet_env Connect = None \<and> db_fault quiet_env Select = None"
    by (simp add: quiet_env_def)
  have h: "harbour \<in> set (entries example_db)" "e_is_archived harbour = VNull"
    "search_where ''ann'' [] [] [] False False harbour"
    by (simp_all add: example_db_def harbour_def blank_entry_def search_where_iff)
  have k: "get_entry_field (select_columns kitten) ''is_archived'' = Inr (VInt 1)"
    "e_is_archived kitten = VInt 1"
    by (simp_all add: row_is_archived kitten_def)
  show ?thesis
    using search_exclude_archived [of quiet_env example_db "''ann''" "[]" "[]" "[]" False "[]"]
      search_exclude_archived [of quiet_env example_db "''bob''" "[]" "[]" "[]" False "[]"]
      quiet h k
    by auto
qed

lemma search_where_query_only:
  assumes "search_query \<noteq> []"
  shows "search_where username search_query [] [] False False e \<longleftrightarrow>
     e_username e = username
     \<and> (\<exists>column\<in>set (searched_columns e).
           sql_like column (''%'' @ search_query @ ''%'') = Some True)"
  unfolding search_where_iff using assms by simp

lemma search_query_found:
  assumes "search_query \<noteq> []"
    and "db_fault ev Connect = None" "db_fault ev Select = None"
  shows "set (search_entries ev d username search_query [] [] False False kwargs)
     = select_columns `
         {e \<in> set (entries d). e_username e = username
            \<and> (\<exists>column\<in>set (searched_columns e).
                  sql_like column (''%'' @ search_query @ ''%'') = Some True)}"
  unfolding search_entries_set [OF assms(2,3)] search_where_query_only [OF assms(1)]
  by (rule refl)

text \<open>
  C6, as stated, fails for a query with a wildcard: the query \<open>_\<close> returns the entry
  titled \<open>x\<close>, although no underscore occurs in any of its six columns.
\<close>

theorem search_query_wildcard_counterexample:
  "select_columns sunset \<in> set (search_entries quiet_env example_db ''ann'' ''_'' [] [] False False [])
   \<and> \<not> occurs_ci ''_'' (e_title sunset)
   \<and> \<not> occurs_ci ''_'' (e_description sunset)
   \<and> \<not> occurs_ci ''_'' (e_image_caption sunset)
   \<and> \<not> occurs_ci ''_'' (e_filename sunset)
   \<and> \<not> occurs_ci ''_'' (e_tags sunset)
   \<and> \<not> occurs_ci ''_'' (e_notes sunset)"
  by code_simp

text \<open>
  C6, amended. For a non-empty query and database calls that do not raise,
  \<open>search_entries\<close> with no other filter returns every entry of the owner in which the
  query occurs, up to ASCII case, in one of the six columns; in particular an entry whose
  description has a substring equal to the query up to ASCII case. When the query has
  neither \<open>%\<close> nor \<open>_\<close> in it, these are exactly the entries returned.
\<close>

theorem search_query_matches:
  assumes "search_query \<noteq> []"
    and "db_fault ev Connect = None" "db_fault ev Select = None"
  shows "select_columns ` {e \<in> set (entries d). e_username e = username
              \<and> (\<exists>column\<in>set (searched_columns e). occurs_ci search_query column)}
           \<subseteq> set (search_entries ev d username search_query [] [] False False kwargs)
    \<and> (\<forall>e\<in>set (entries d). \<forall>t s.
          e_username e = username \<and> e_description e = Some t \<and> sublist s t
          \<and> map ascii_lower search_query = map ascii_lower s \<longrightarrow>
          select_columns e \<in> set (search_entries ev d username search_query [] [] False False kwargs))
    \<and> (wildcard_free search_query \<longrightarrow>
          set (search_entries ev d username search_query [] [] False False kwargs)
          = select_columns ` {e \<in> set (entries d). e_username e = username
              \<and> (\<exists>column\<in>set (searched_columns e). occurs_ci search_query column)})"
proof (intro conjI ballI allI impI)
  let ?found = "set (search_entries ev d username search_query [] [] False False kwargs)"
  note found = search_query_found [OF assms, of d username kwargs]
  show sub: "select_columns ` {e \<in> set (entries d). e_username e = username
              \<and> (\<exists>column\<in>set (searched_columns e). occurs_ci search_query column)}
           \<subseteq> ?found"
  proof
    fix row
    assume "row \<in> select_columns ` {e \<in> set (entries d). e_username e = username
              \<and> (\<exists>column\<in>set (searched_columns e). occurs_ci search_query column)}"
    then obtain e column where e: "row = select_columns e" "e \<in> set (entries d)"
      "e_username e = username" "column \<in> set (searched_columns e)"
      "occurs_ci search_query column"
      by blast
    from e(5) have "sql_like column (''%'' @ search_query @ ''%'') = Some True"
      by (rule sql_like_occurs(1))
    with e(2,3,4) have "e \<in> {e \<in> set (entries d). e_username e = username
            \<and> (\<exists>column\<in>set (searched_columns e).
                  sql_like column (''%'' @ search_query @ ''%'') = Some True)}"
      by blast
    then show "row \<in> ?found"
      unfolding found e(1) by (rule imageI)
  qed
  show "select_columns e \<in> ?found"
    if e: "e \<in> set (entries d)"
      and h: "e_username e = username \<and> e_description e = Some t \<and> sublist s t
          \<and> map ascii_lower search_query = map ascii_lower s"
    for e t s
  proof -
    from h obtain ps ss where "t = ps @ s @ ss" by (auto simp: sublist_def)
    then have "map ascii_lower t
        = map ascii_lower ps @ map ascii_lower search_query @ map ascii_lower ss"
      using h by simp
    then have "sublist (map ascii_lower search_query) (map ascii_lower t)"
      unfolding sublist_def by blast
    then have "occurs_ci search_query (e_description e)"
      using h by (simp add: occurs_ci_def)
    moreover have "e_description e \<in> set (searched_columns e)"
      by (simp add: searched_columns_def)
    ultimately have m: "select_columns e \<in> select_columns ` {e \<in> set (entries d).
        e_username e = username
        \<and> (\<exists>column\<in>set (searched_columns e). occurs_ci search_query column)}"
      using e h by blast
    show ?thesis using m sub by (rule rev_subsetD)
  qed
  show "?found = select_columns ` {e \<in> set (entries d). e_username e = username
              \<and> (\<exists>column\<in>set (searched_columns e). occurs_ci search_query column)}"
    if "wildcard_free search_query"
    unfolding found sql_like_occurs(2) [OF that] by (rule refl)
qed

theorem search_query_matches_witness:
  "''bay'' \<noteq> [] \<and> wildcard_free ''bay''
   \<and> e_description sunset = Some ''Sunset over the BAY''
   \<and> set (search_entries quiet_env example_db ''ann'' ''bay'' [] [] False False [])
       = {select_columns sunset}"
proof -
  have q: "''bay'' \<noteq> []" "db_fault quiet_env Connect = None" "db_fault quiet_env Select = None"
    by (simp_all add: quiet_env_def)
  have w: "wildcard_free ''bay''"
    by (simp add: wildcard_free_def)
  have d: "e_description sunset = Some ''Sunset over the BAY''"
    by (simp add: sunset_def)
  have "filter (\<lambda>e. e_username e = ''ann''
                  \<and> list_ex (occurs_ci ''bay'') (searched_columns e)) (entries example_db)
        = [sunset]"
    by code_simp
  then have "set (filter (\<lambda>e. e_username e = ''ann''
                  \<and> list_ex (occurs_ci ''bay'') (searched_columns e)) (entries example_db))
        = {sunset}"
    by simp
  then have "{e \<in> set (entries example_db). e_username e = ''ann''
              \<and> (\<exists>column\<in>set (searched_columns e). occurs_ci ''bay'' column)} = {sunset}"
    by (simp add: list_ex_iff)
  then show ?thesis
    using search_query_matches [OF q, of example_db "''ann''" "[]"] w d by simp
qed

subsection \<open>Distinct labels\<close>

lemma collect_labels_select_distinct:
  "collect_labels (select_distinct column d username)
     = {py_strip p | e s p. e \<in> set (entries d) \<and> e_username e = username
          \<and> column e = Some s \<and> s \<noteq> [] \<and> p \<in> set (py_split CHR '','' s)}"
proof -
  have rows: "set (select_distinct column d username)
      = {s. \<exists>e\<in>set (entries d). e_username e = username \<and> column e = Some s}"
    by (auto simp: select_distinct_def split: option.splits)
  have labels: "collect_labels rows
      = {py_strip p | s p. s \<in> set rows \<and> s \<noteq> [] \<and> p \<in> set (py_split CHR '','' s)}" for rows
    by (auto simp: collect_labels_def split: if_splits)
  show ?thesis
    unfolding labels rows by blast
qed

lemma sorted_labels:
  "sorted (sorted_list_of_set (collect_labels rows))
   \<and> distinct (sorted_list_of_set (collect_labels rows))
   \<and> set (sorted_list_of_set (collect_labels rows)) = collect_labels rows"
  by (simp add: collect_labels_def)

text \<open>
  C7, as stated, fails for an entry whose stored label string is empty: splitting the
  empty string gives one empty piece, but the loop skips the row, so the empty label is
  not returned.
\<close>

theorem get_all_tags_empty_counterexample:
  "e_username sunset = ''ann'' \<and> e_tags sunset = Some []
   \<and> map py_strip (py_split CHR '','' []) = [[]]
   \<and> get_all_tags quiet_env example_db ''ann'' = Inr []"
  by code_simp

text \<open>
  C7, amended. When the database calls do not raise, \<open>get_all_categories\<close> and
  \<open>get_all_tags\<close> return a list in strictly ascending order whose elements are exactly
  the stripped pieces obtained by splitting at the commas every non-empty label string
  stored for the user; on the two stored strings \<open>a, b\<close> and \<open> b , c\<close> this is
  \<open>a\<close>, \<open>b\<close>, \<open>c\<close>.
\<close>

theorem get_all_labels_sorted_distinct:
  assumes "db_fault ev Connect = None" "db_fault ev Select = None"
  shows "(\<exists>labels. get_all_categories ev d username = Inr labels
            \<and> sorted labels \<and> distinct labels
            \<and> set labels = {py_strip p | e s p. e \<in> set (entries d) \<and> e_username e = username
                  \<and> e_categories e = Some s \<and> s \<noteq> [] \<and> p \<in> set (py_split CHR '','' s)})
    \<and> (\<exists>labels. get_all_tags ev d username = Inr labels
            \<and> sorted labels \<and> distinct labels
            \<and> set labels = {py_strip p | e s p. e \<in> set (entries d) \<and> e_username e = username
                  \<and> e_tags e = Some s \<and> s \<noteq> [] \<and> p \<in> set (py_split CHR '','' s)})
    \<and> get_all_categories quiet_env example_db ''ann'' = Inr [''a'', ''b'', ''c'']"
proof (intro conjI)
  have c: "get_all_categories ev d username
      = Inr (sorted_list_of_set (collect_labels (select_distinct e_categories d username)))"
    using assms by (simp add: get_all_categories_def and_then_def db_call_def)
  show "\<exists>labels. get_all_categories ev d username = Inr labels
            \<and> sorted labels \<and> distinct labels
            \<and> set labels = {py_strip p | e s p. e \<in> set (entries d) \<and> e_username e = username
                  \<and> e_categories e = Some s \<and> s \<noteq> [] \<and> p \<in> set (py_split CHR '','' s)}"
    unfolding c
    using sorted_labels [of "select_distinct e_categories d username"]
      collect_labels_select_distinct [of e_categories d username]
    by simp
  have t: "get_all_tags ev d username
      = Inr (sorted_list_of_set (collect_labels (select_distinct e_tags d username)))"
    using assms by (simp add: get_all_tags_def and_then_def db_call_def)
  show "\<exists>labels. get_all_tags ev d username = Inr labels
            \<and> sorted labels \<and> distinct labels
            \<and> set labels = {py_strip p | e s p. e \<in> set (entries d) \<and> e_username e = username
                  \<and> e_tags e = Some s \<and> s \<noteq> [] \<and> p \<in> set (py_split CHR '','' s)}"
    unfolding t
    using sorted_labels [of "select_distinct e_tags d username"]
      collect_labels_select_distinct [of e_tags d username]
    by simp
  show "get_all_categories quiet_env example_db ''ann'' = Inr [''a'', ''b'', ''c'']"
    by code_simp
qed

theorem get_all_labels_sorted_distinct_witness:
  "e_categories sunset = Some ''a, b'' \<and> e_categories harbour = Some '' b , c''
   \<and> get_all_categories quiet_env example_db ''ann'' = Inr [''a'', ''b'', ''c'']
   \<and> (\<exists>labels. get_all_tags quiet_env example_db ''ann'' = Inr labels
         \<and> sorted labels \<and> distinct labels)"
proof -
  have q: "db_fault quiet_env Connect = None" "db_fault quiet_env Select = None"
    by (simp_all add: quiet_env_def)
  have e: "e_categories sunset = Some ''a, b''" "e_categories harbour = Some '' b , c''"
    by (simp_all add: sunset_def harbour_def)
  show ?thesis
    using get_all_labels_sorted_distinct [OF q, of example_db "''ann''"] e by blast
qed

subsection \<open>Analysis\<close>

lemma extract_categories_bounds:
  "length (extract_categories_from_text text) \<le> 5
   \<and> ((\<forall>keyword\<in>set (concat (map snd category_keywords)).
          \<not> sublist keyword (py_lower text)) \<longrightarrow>
        extract_categories_from_text text = [''general''])"
proof -
  have "filter (\<lambda>(category, keywords). list_ex (\<lambda>keyword. sublist keyword (py_lower text)) keywords)
          category_keywords = []"
    if "\<forall>keyword\<in>set (concat (map snd category_keywords)). \<not> sublist keyword (py_lower text)"
    using that by (auto simp: filter_empty_conv list_ex_iff)
  then show ?thesis
    by (simp add: extract_categories_from_text_def Let_def)
qed

lemma analyze_image_with_cases:
  "analyze_image_with analyze summarize uploaded_image description link =
     (case analyze uploaded_image (build_prompt description link) of
        Inl e \<Rightarrow> analysis_fallback e
      | Inr analysis_result \<Rightarrow>
          (case (if length analysis_result > 500
                 then summarize (''Provide a concise summary of this image analysis: ''
                                   @ analysis_result)
                 else Inr analysis_result) of
             Inl e \<Rightarrow> analysis_fallback e
           | Inr summary \<Rightarrow>
               \<lparr> res_summary = summary,
                 res_categories = extract_categories_from_text analysis_result,
                 res_caption = extract_caption_from_text analysis_result,
                 res_full_analysis = analysis_result \<rparr>))"
  by (simp add: analyze_image_with_def analyze_image_try_def and_then_def Let_def
      split: sum.splits)

lemma analyze_image_result:
  "analyze_image g uploaded_image description link =
     (let analysis_result =
            analyze_image_with_gemini g uploaded_image (build_prompt description link)
      in \<lparr> res_summary =
             (if length analysis_result > 500
              then summarize_with_gemini g
                     (''Provide a concise summary of this image analysis: '' @ analysis_result)
              else analysis_result),
           res_categories = extract_categories_from_text analysis_result,
           res_caption = extract_caption_from_text analysis_result,
           res_full_analysis = analysis_result \<rparr>)"
  by (simp add: analyze_image_def analyze_image_with_cases Let_def)

text \<open>
  C9. \<open>analyze_image\<close> returns a record with the four fields for every input and every
  behaviour of the remote service: at most five categories, exactly \<open>general\<close> when no
  keyword of the table occurs in the lower-cased analysis text; without a key the
  analysis is the mock text, and a failed request gives the text marked as failed.
  Whatever the two client functions do, an exception of either is turned into the
  fallback record, whose categories are \<open>error\<close> and \<open>fallback\<close>.
\<close>

theorem analyze_image_never_raises:
  "length (res_categories (analyze_image g uploaded_image description link)) \<le> 5
   \<and> ((\<forall>keyword\<in>set (concat (map snd category_keywords)).
          \<not> sublist keyword
              (py_lower (res_full_analysis (analyze_image g uploaded_image description link)))) \<longrightarrow>
        res_categories (analyze_image g uploaded_image description link) = [''general''])
   \<and> (\<not> configured g \<longrightarrow>
        res_full_analysis (analyze_image g uploaded_image description link)
          = ''Mock analysis: This appears to be an interesting image. The AI analysis is currently unavailable because the GEMINI_API_KEY is not configured.'')
   \<and> (\<forall>e. configured g
            \<and> vision_generate g (build_prompt description link) uploaded_image = Inl e \<longrightarrow>
        res_full_analysis (analyze_image g uploaded_image description link)
          = warning_sign @ '' Gemini Vision analysis failed: '' @ py_str e)
   \<and> length (res_categories
         (analyze_image_with analyze summarize uploaded_image description link)) \<le> 5
   \<and> (\<forall>e. analyze uploaded_image (build_prompt description link) = Inl e \<longrightarrow>
        analyze_image_with analyze summarize uploaded_image description link
          = analysis_fallback e)
   \<and> (\<forall>text e. analyze uploaded_image (build_prompt description link) = Inr text
            \<and> length text > 500
            \<and> summarize (''Provide a concise summary of this image analysis: '' @ text) = Inl e \<longrightarrow>
        analyze_image_with analyze summarize uploaded_image description link
          = analysis_fallback e)"
proof (intro conjI allI impI)
  let ?r = "analyze_image g uploaded_image description link"
  let ?text = "analyze_image_with_gemini g uploaded_image (build_prompt description link)"
  have cats: "res_categories ?r = extract_categories_from_text ?text"
    and full: "res_full_analysis ?r = ?text"
    by (simp_all add: analyze_image_result Let_def)
  show "length (res_categories ?r) \<le> 5"
    unfolding cats using extract_categories_bounds [of ?text] by simp
  show "res_categories ?r = [''general'']"
    if "\<forall>keyword\<in>set (concat (map snd category_keywords)).
          \<not> sublist keyword (py_lower (res_full_analysis ?r))"
    using that extract_categories_bounds [of ?text] unfolding cats full by blast
  show "res_full_analysis ?r
          = ''Mock analysis: This appears to be an interesting image. The AI analysis is currently unavailable because the GEMINI_API_KEY is not configured.''"
    if "\<not> configured g"
    unfolding full using that by (simp add: analyze_image_with_gemini_def)
  show "res_full_analysis ?r = warning_sign @ '' Gemini Vision analysis failed: '' @ py_str e"
    if "configured g \<and> vision_generate g (build_prompt description link) uploaded_image = Inl e"
    for e
    unfolding full using that by (simp add: analyze_image_with_gemini_def)
  show "length (res_categories
         (analyze_image_with analyze summarize uploaded_image description link)) \<le> 5"
    using extract_categories_bounds
    by (auto simp: analyze_image_with_cases analysis_fallback_def split: sum.splits)
  show "analyze_image_with analyze summarize uploaded_image description link
          = analysis_fallback e"
    if "analyze uploaded_image (build_prompt description link) = Inl e" for e
    using that by (simp add: analyze_image_with_cases)
  show "analyze_image_with analyze summarize uploaded_image description link
          = analysis_fallback e"
    if "analyze uploaded_image (build_prompt description link) = Inr analysis_result
            \<and> length analysis_result > 500
            \<and> summarize (''Provide a concise summary of this image analysis: ''
                           @ analysis_result) = Inl e"
    for analysis_result e
    using that by (simp add: analyze_image_with_cases)
qed

theorem analyze_image_never_raises_witness:
  "res_categories (analyze_image offline ''image bytes'' [] []) = [''general'']
   \<and> res_full_analysis (analyze_image refused ''image bytes'' ''a dog'' [])
       = warning_sign @ '' Gemini Vision analysis failed: quota exceeded''
   \<and> res_categories
        (analyze_image_with (\<lambda>image prompt. Inl (RuntimeError ''no client'')) (\<lambda>text. Inr text)
           ''image bytes'' [] [])
       = [''error'', ''fallback'']"
proof -
  let ?mock = "''Mock analysis: This appears to be an interesting image. The AI analysis is currently unavailable because the GEMINI_API_KEY is not configured.''"
  have off: "\<not> configured offline"
    by (simp add: configured_def offline_def)
  have none: "\<forall>keyword\<in>set (concat (map snd category_keywords)).
      \<not> sublist keyword (py_lower ?mock)"
    by code_simp
  have ref: "configured refused
      \<and> vision_generate refused (build_prompt ''a dog'' []) ''image bytes''
          = Inl (RuntimeError ''quota exceeded'')"
    by (simp add: configured_def refused_def)
  have raise: "(\<lambda>image prompt. Inl (RuntimeError ''no client'')) ''image bytes'' (build_prompt [] [])
      = (Inl (RuntimeError ''no client'') :: py_error + string)"
    by simp
  show ?thesis
    using analyze_image_never_raises [of offline "''image bytes''" "[]" "[]"] off none
      analyze_image_never_raises [of refused "''image bytes''" "''a dog''" "[]"] ref
      analyze_image_never_raises [of _ _ _ _ "\<lambda>image prompt. Inl (RuntimeError ''no client'')"
        "\<lambda>text. Inr text"] raise
    by (simp add: analysis_fallback_def)
qed

end
